theory Spec2Isabelle
  imports Main "HOL-Library.Sublist" "HOL-Library.AList"
begin

section \<open>Strings\<close>

text \<open>
  Python strings are modelled as \<open>string\<close>. Node texts are kept already decoded, so
  \<open>text.decode()\<close> is the identity and the truth value of a text is its non-emptiness
  (an absent text and an empty one are both false in the source's tests).
  \<open>a.startswith(b)\<close> is \<open>prefix b a\<close>, \<open>a.endswith(b)\<close> is \<open>suffix b a\<close> and
  \<open>b in a\<close> is \<open>sublist b a\<close>.
\<close>

text \<open>\<open>s.split('::')\<close>: the pieces between the occurrences of the separator, found
  from the left and not overlapping.\<close>

fun split_scope :: "string \<Rightarrow> string list" where
  "split_scope [] = [[]]"
| "split_scope (c # cs) =
     (if c = CHR '':'' \<and> cs \<noteq> [] \<and> hd cs = CHR '':'' then [] # split_scope (tl cs)
      else (case split_scope cs of
              [] \<Rightarrow> [[c]]
            | w # ws \<Rightarrow> (c # w) # ws))"

text \<open>\<open>s.split('::', 1)\<close>: at most one split, at the leftmost occurrence.\<close>

fun split_scope_once :: "string \<Rightarrow> string list" where
  "split_scope_once [] = [[]]"
| "split_scope_once (c # cs) =
     (if c = CHR '':'' \<and> cs \<noteq> [] \<and> hd cs = CHR '':'' then [[], tl cs]
      else (case split_scope_once cs of
              [] \<Rightarrow> [[c]]
            | w # ws \<Rightarrow> (c # w) # ws))"

text \<open>\<open>s.rsplit('::')\<close> and \<open>s.rsplit('::', 1)\<close> search from the right; the separator
  reads the same in both directions, so they are the left splits of the reversed
  string, reversed.\<close>

definition rsplit_scope :: "string \<Rightarrow> string list" where
  "rsplit_scope s = rev (map rev (split_scope (rev s)))"

definition rsplit_scope_once :: "string \<Rightarrow> string list" where
  "rsplit_scope_once s = rev (map rev (split_scope_once (rev s)))"

text \<open>\<open>'::'.join(xs)\<close>.\<close>

fun join_scope :: "string list \<Rightarrow> string" where
  "join_scope [] = []"
| "join_scope [x] = x"
| "join_scope (x # y # ys) = x @ ''::'' @ join_scope (y # ys)"

text \<open>\<open>str(n)\<close> for a non-negative integer: its decimal digits.\<close>

function str_nat :: "nat \<Rightarrow> string" where
  "str_nat n =
     (if n < 10 then [char_of (48 + n)]
      else str_nat (n div 10) @ [char_of (48 + n mod 10)])"
  by pat_completeness auto
termination
  by (relation "measure (\<lambda>n. n)") auto

declare str_nat.simps [simp del]

section \<open>Syntax trees\<close>

text \<open>
  The parser's nodes. A node carries its identity \<open>nid\<close>, its kind tag, the name of the
  field under which its parent holds it (empty when it has none), its text, whether it
  is a named node, the rows of its start and end points, the end of its byte range, and
  its children in order. \<open>node.parent\<close> is not part of the value: the functions that
  walk upwards take the list of ancestors, nearest first.
\<close>

datatype node = Node (nid: nat) (ntype: string) (nfield: string) (ntext: string)
  (is_named: bool) (start_row: nat) (end_row: nat) (end_byte: nat) (children: "node list")

definition child_by_field_name :: "node \<Rightarrow> string \<Rightarrow> node option" where
  "child_by_field_name n f = find (\<lambda>c. nfield c = f) (children n)"

fun preorder :: "node \<Rightarrow> node list" where
  "preorder (Node i t f x nm sr er eb cs) =
     Node i t f x nm sr er eb cs # concat (map preorder cs)"

text \<open>The captures of the query \<open>( T ) @c\<close> on a node: the nodes of kind \<open>T\<close> in its
  subtree, in document order.\<close>

definition captures :: "string \<Rightarrow> node \<Rightarrow> node list" where
  "captures ty n = filter (\<lambda>m. ntype m = ty) (preorder n)"

datatype error = AttributeError

section \<open>FunctionDefinition\<close>

text \<open>
  A call site while it is collected is (target, byte offset, line); the recorded
  \<open>base_callsites\<close> keep (target, line) and \<open>detailed_callsites\<close> keep (Src, Dst).
  An assert statement is (condition, source file, first row, last row). The variable
  map is a dictionary, kept as an association list.
\<close>

type_synonym callsite = "string \<times> nat \<times> nat"

record function_definition =
  root :: node
  parent_source_file :: string
  namespace_or_class :: string
  valid :: bool
  start_line :: nat
  end_line :: nat
  name :: string
  complexity :: int
  icount :: int
  bbcount :: int
  arg_names :: "string list"
  arg_types :: "string list"
  return_type :: string
  sig :: string
  base_callsites :: "(string \<times> nat) list"
  detailed_callsites :: "(string \<times> string) list"
  var_map :: "(string \<times> string) list"
  depth :: int
  assert_stmts :: "(string \<times> string \<times> nat \<times> nat) list"

text \<open>The attributes as \<open>__init__\<close> sets them before it extracts anything.\<close>

definition init_function_definition :: "node \<Rightarrow> string \<Rightarrow> string \<Rightarrow> function_definition" where
  "init_function_definition r source_file namespace =
     \<lparr> root = r, parent_source_file = source_file, namespace_or_class = namespace,
       valid = True, start_line = start_row r + 1, end_line = end_row r + 1,
       name = [], complexity = 0, icount = 0, bbcount = 0, arg_names = [],
       arg_types = [], return_type = [], sig = [], base_callsites = [],
       detailed_callsites = [], var_map = [], depth = - 1, assert_stmts = [] \<rparr>"

subsection \<open>Metrics\<close>

definition branch_nodes :: "string list" where
  "branch_nodes =
     [''if_statement'', ''switch_statement'', ''do_statement'', ''while_statement'',
      ''for_statement'', ''for_range_loop'', ''try_statement'', ''seh_try_statement'',
      ''throw_statement'', ''goto_statement'', ''co_return_statement'',
      ''co_yield_statement'', ''break_statement'', ''continue_statement'', ''&&'', ''||'']"

fun traverse_node_complexity :: "node \<Rightarrow> int" where
  "traverse_node_complexity (Node i t f x nm sr er eb cs) =
     (if t \<in> set branch_nodes then 1 else 0) + sum_list (map traverse_node_complexity cs)"

definition process_complexity :: "function_definition \<Rightarrow> function_definition" where
  "process_complexity fd = fd\<lparr>complexity := complexity fd + traverse_node_complexity (root fd)\<rparr>"

fun traverse_node_instr_count :: "node \<Rightarrow> int" where
  "traverse_node_instr_count (Node i t f x nm sr er eb cs) =
     (if sublist ''statement'' t then 1 else 0) + sum_list (map traverse_node_instr_count cs)"

definition process_icount :: "function_definition \<Rightarrow> function_definition" where
  "process_icount fd = fd\<lparr>icount := icount fd + traverse_node_instr_count (root fd)\<rparr>"

definition process_bbcount :: "function_definition \<Rightarrow> function_definition" where
  "process_bbcount fd =
     fd\<lparr>bbcount := 1 + int (length (captures ''if_statement'' (root fd)))
                      + int (length (captures ''case_statement'' (root fd)))\<rparr>"

fun assert_calls ::
  "string \<Rightarrow> node list \<Rightarrow> (string \<times> string \<times> nat \<times> nat) list
     \<Rightarrow> error + (string \<times> string \<times> nat \<times> nat) list" where
  "assert_calls src [] acc = Inr acc"
| "assert_calls src (call_expr # rest) acc =
     (case child_by_field_name call_expr ''function'' of
        None \<Rightarrow> assert_calls src rest acc
      | Some func_call \<Rightarrow>
          if ntext func_call = ''assert'' then
            (case child_by_field_name call_expr ''arguments'' of
               None \<Rightarrow> Inl AttributeError
             | Some args \<Rightarrow>
                 assert_calls src rest
                   (acc @ [(ntext args, src, start_row call_expr, end_row call_expr)]))
          else assert_calls src rest acc)"

definition process_assert_stmts :: "function_definition \<Rightarrow> error + function_definition" where
  "process_assert_stmts fd =
     (case assert_calls (parent_source_file fd) (captures ''call_expression'' (root fd))
             (assert_stmts fd) of
        Inl e \<Rightarrow> Inl e
      | Inr a \<Rightarrow> Inr (fd\<lparr>assert_stmts := a\<rparr>))"

subsection \<open>Name, scope and parameters\<close>

lemma child_by_field_name_size [termination_simp]:
  "child_by_field_name n f = Some c \<Longrightarrow> size c < size n"
proof -
  assume "child_by_field_name n f = Some c"
  then have "c \<in> set (children n)"
    by (auto simp: child_by_field_name_def find_Some_iff)
  then have "size c \<le> size_list size (children n)"
    by (simp add: size_list_estimation')
  then show ?thesis
    by (cases n) simp
qed

text \<open>The first loop over the declarator's children: it keeps the last parameter list
  met, directly or inside a function declarator. (The name it also assigns is replaced
  by the full name further down.)\<close>

definition find_param_list :: "node \<Rightarrow> node option" where
  "find_param_list name_node =
     foldl (\<lambda>param_list_node child.
              if sublist ''identifier'' (ntype child) then param_list_node
              else if ntype child = ''function_declarator'' then
                foldl (\<lambda>pl decl.
                         if sublist ''identifier'' (ntype decl) then pl
                         else if ntype decl = ''parameter_list'' then Some decl
                         else pl)
                      param_list_node (children child)
              else if ntype child = ''parameter_list'' then Some child
              else param_list_node)
           None (children name_node)"

text \<open>The walk over the parents: every named class specifier and every named
  namespace definition puts its name in front.\<close>

definition parent_scope_step :: "string \<Rightarrow> node \<Rightarrow> string" where
  "parent_scope_step full_name new_parent =
     (let full_name1 =
            (if ntype new_parent = ''class_specifier'' then
               (case child_by_field_name new_parent ''name'' of
                  None \<Rightarrow> full_name
                | Some nm \<Rightarrow> ntext nm @ ''::'' @ full_name)
             else full_name)
      in if ntype new_parent = ''namespace_definition'' then
           (case child_by_field_name new_parent ''name'' of
              None \<Rightarrow> full_name1
            | Some nm \<Rightarrow> ntext nm @ ''::'' @ full_name1)
         else full_name1)"

definition parent_scope :: "node list \<Rightarrow> string" where
  "parent_scope ancestors = foldl parent_scope_step [] ancestors"

text \<open>Inside a reference declarator, a function declarator whose own declarator is an
  identifier gives the name; a function declarator with no declarator raises.\<close>

fun reference_declarator_name :: "node list \<Rightarrow> string \<Rightarrow> error + string" where
  "reference_declarator_name [] tmp_name = Inr tmp_name"
| "reference_declarator_name (child # rest) tmp_name =
     (if ntype child = ''function_declarator'' then
        (case child_by_field_name child ''declarator'' of
           None \<Rightarrow> Inl AttributeError
         | Some d \<Rightarrow>
             reference_declarator_name rest
               (if ntype d = ''identifier'' then ntext d else tmp_name))
      else reference_declarator_name rest tmp_name)"

text \<open>The walk down the declarator chain, returning (tmp_name, scope_to_add).\<close>

function declarator_name :: "node \<Rightarrow> string \<Rightarrow> string \<Rightarrow> error + (string \<times> string)" where
  "declarator_name tmp_node tmp_name scope_to_add =
     (case (if ntype tmp_node = ''reference_declarator''
            then reference_declarator_name (children tmp_node) tmp_name
            else Inr tmp_name) of
        Inl e \<Rightarrow> Inl e
      | Inr tmp_name1 \<Rightarrow>
          (let scope1 = (case child_by_field_name tmp_node ''scope'' of
                           None \<Rightarrow> scope_to_add
                         | Some sc \<Rightarrow> ntext sc @ ''::'')
           in if ntype tmp_node = ''identifier'' then Inr (ntext tmp_node, scope1)
              else if ntype tmp_node = ''field_identifier'' then Inr (ntext tmp_node, scope1)
              else
                (let tmp_name2 =
                       (case child_by_field_name tmp_node ''name'' of
                          None \<Rightarrow> tmp_name1
                        | Some nm \<Rightarrow> if ntype nm = ''identifier'' then ntext nm else tmp_name1)
                 in case child_by_field_name tmp_node ''declarator'' of
                      None \<Rightarrow> Inr (tmp_name2, scope1)
                    | Some d \<Rightarrow> declarator_name d tmp_name2 scope1)))"
  by pat_completeness auto
termination
  by (relation "measure (\<lambda>(n, _, _). size n)") (auto simp: child_by_field_name_size)

declare declarator_name.simps [simp del]

definition declarator_kinds :: "string list" where
  "declarator_kinds =
     [''identifier'', ''qualified_identifier'', ''pointer_declarator'',
      ''array_declarator'', ''reference_declarator'']"

text \<open>\<open>while n is not None and n.type not in [...]: n = n.child_by_field_name('declarator')\<close>\<close>

function unwrap_declarator :: "node \<Rightarrow> node option" where
  "unwrap_declarator n =
     (if ntype n \<in> set declarator_kinds then Some n
      else (case child_by_field_name n ''declarator'' of
              None \<Rightarrow> None
            | Some c \<Rightarrow> unwrap_declarator c))"
  by pat_completeness auto
termination
  by (relation "measure size") (auto simp: child_by_field_name_size)

declare unwrap_declarator.simps [simp del]

function count_declarators :: "string \<Rightarrow> node \<Rightarrow> nat \<Rightarrow> nat \<times> node" where
  "count_declarators kind n k =
     (if ntype n = kind then
        (case child_by_field_name n ''declarator'' of
           None \<Rightarrow> (k + 1, n)
         | Some c \<Rightarrow> count_declarators kind c (k + 1))
      else (k, n))"
  by pat_completeness auto
termination
  by (relation "measure (\<lambda>(_, n, _). size n)") (auto simp: child_by_field_name_size)

declare count_declarators.simps [simp del]

definition extract_pointer_array_from_type :: "node \<Rightarrow> nat \<times> nat \<times> node" where
  "extract_pointer_array_from_type param_name =
     (let (pointer_count, n1) = count_declarators ''pointer_declarator'' param_name 0;
          (array_count, n2) = count_declarators ''array_declarator'' n1 0
      in (pointer_count, array_count, n2))"

definition decorate_type :: "string \<Rightarrow> nat \<Rightarrow> nat \<Rightarrow> string" where
  "decorate_type ty pcount acount =
     ty @ replicate pcount (CHR ''*'') @ concat (replicate acount ''[]'')"

definition strip_amp :: "string \<Rightarrow> string" where
  "strip_amp s = filter (\<lambda>c. c \<noteq> CHR ''&'') s"

text \<open>The loop over the parameter list, on (arg_types, arg_names, var_map).\<close>

fun process_params ::
  "node list \<Rightarrow> string list \<times> string list \<times> (string \<times> string) list
     \<Rightarrow> error + (string list \<times> string list \<times> (string \<times> string) list)" where
  "process_params [] st = Inr st"
| "process_params (param # rest) (tys, nms, vm) =
     (if ntype param = ''parameter_declaration'' then
        (let param_type = child_by_field_name param ''type'';
             param_name = child_by_field_name param ''declarator''
         in if param_type = None \<and> param_name = None then process_params rest (tys, nms, vm)
            else
              (case (case param_name of None \<Rightarrow> None | Some pn \<Rightarrow> unwrap_declarator pn) of
                 None \<Rightarrow> process_params rest (tys, nms, vm)
               | Some pn \<Rightarrow>
                   (let (pcount, acount, pn1) = extract_pointer_array_from_type pn
                    in case param_type of
                         None \<Rightarrow> Inl AttributeError
                       | Some pt \<Rightarrow>
                           (let ty = decorate_type (ntext pt) pcount acount;
                                nm = strip_amp (ntext pn1)
                            in process_params rest
                                 (tys @ [ty], nms @ [nm], AList.update nm ty vm)))))
      else process_params rest (tys, nms, vm))"

subsection \<open>Extraction\<close>

fun macro_params :: "nat \<Rightarrow> node list \<Rightarrow> string list" where
  "macro_params idx [] = []"
| "macro_params idx (param # rest) =
     (if ntext param \<noteq> [] then ntext param else ''arg'' @ str_nat idx)
       # macro_params (idx + 1) rest"

definition extract_macro_information :: "function_definition \<Rightarrow> function_definition" where
  "extract_macro_information fd =
     (case child_by_field_name (root fd) ''name'' of
        None \<Rightarrow> fd\<lparr>valid := False\<rparr>
      | Some name_node \<Rightarrow>
     (case child_by_field_name (root fd) ''parameters'' of
        None \<Rightarrow> fd\<lparr>valid := False\<rparr>
      | Some param_node \<Rightarrow>
     (case child_by_field_name (root fd) ''value'' of
        None \<Rightarrow> fd\<lparr>valid := False\<rparr>
      | Some def_node \<Rightarrow>
          if ntext name_node = [] \<or> ntext param_node = [] \<or> ntext def_node = []
          then fd\<lparr>valid := False\<rparr>
          else fd\<lparr>name := ntext name_node,
                  arg_names := arg_names fd @ macro_params 0 (children param_node),
                  arg_types := arg_types fd
                                 @ replicate (length (children param_node)) ''auto'',
                  return_type := ''auto'',
                  sig := ntext name_node @ ntext param_node,
                  complexity := 1, icount := 1, bbcount := 1\<rparr>)))"

definition extract_information :: "node list \<Rightarrow> function_definition \<Rightarrow> error + function_definition" where
  "extract_information ancestors fd =
     (if ntype (root fd) = ''preproc_function_def'' then Inr (extract_macro_information fd)
      else
        (case child_by_field_name (root fd) ''declarator'' of
           None \<Rightarrow> Inl AttributeError
         | Some name_node \<Rightarrow>
             (case declarator_name name_node [] [] of
                Inl e \<Rightarrow> Inl e
              | Inr (tmp_name, scope_to_add) \<Rightarrow>
                  (let full_name =
                         (if tmp_name \<noteq> [] then parent_scope ancestors @ scope_to_add @ tmp_name
                          else ntext name_node);
                       scope =
                         (if sublist ''::'' full_name then hd (rsplit_scope_once full_name)
                          else namespace_or_class fd);
                       ret =
                         (case child_by_field_name (root fd) ''type'' of
                            None \<Rightarrow> ''void''
                          | Some type_node \<Rightarrow> ntext type_node)
                   in case (case find_param_list name_node of
                              None \<Rightarrow> Inr (arg_types fd, arg_names fd, var_map fd)
                            | Some param_list_node \<Rightarrow>
                                process_params (children param_list_node)
                                  (arg_types fd, arg_names fd, var_map fd)) of
                        Inl e \<Rightarrow> Inl e
                      | Inr (tys, nms, vm) \<Rightarrow>
                          process_assert_stmts
                            (process_bbcount
                              (process_icount
                                (process_complexity
                                  (fd\<lparr>name := full_name, namespace_or_class := scope,
                                      return_type := ret,
                                      sig := ret @ '' '' @ ntext name_node,
                                      arg_types := tys, arg_names := nms,
                                      var_map := vm\<rparr>))))))))"

text \<open>The constructor: \<open>FunctionDefinition(root, lang, source_code, namespace)\<close>, with the
  ancestors of the root and the path of the source file.\<close>

definition FunctionDefinition ::
  "node \<Rightarrow> node list \<Rightarrow> string \<Rightarrow> string \<Rightarrow> error + function_definition" where
  "FunctionDefinition r ancestors source_file namespace =
     extract_information ancestors (init_function_definition r source_file namespace)"

section \<open>CppSourceCodeFile\<close>

text \<open>
  One file: its path, the function definitions found by the tree walk and the records
  of its conditional-compilation blocks. The handlers for enums, structs, unions,
  type definitions, macro constants and includes only append to catalogue lists of
  their own, which no function below reads; those lists are not part of the state.
  A condition is (type, condition text).
\<close>

record macro_block =
  conditions :: "(string \<times> string) list"
  pos_source_file :: string
  line_start :: nat
  line_end :: nat

record cpp_source_code_file =
  source_file :: string
  func_defs :: "function_definition list"
  macro_blocks :: "macro_block list"

subsection \<open>Conditional blocks\<close>

text \<open>On an \<open>#elif\<close> or \<open>#else\<close> branch the last condition so far is reversed.\<close>

definition reverse_last_condition :: "(string \<times> string) list \<Rightarrow> (string \<times> string) list" where
  "reverse_last_condition conds =
     (if conds = [] then conds
      else butlast conds @
        [(if fst (last conds) = ''ifdef'' then ''ifndef''
          else if fst (last conds) = ''ifndef'' then ''ifdef''
          else ''not'',
          snd (last conds))])"

text \<open>The condition the macro node itself adds; \<open>None\<close> is the early return on an
  invalid macro.\<close>

definition own_condition ::
  "node \<Rightarrow> (string \<times> string) list \<Rightarrow> (string \<times> string) list option" where
  "own_condition macro conds =
     (if ntype macro = ''preproc_ifdef'' then
        (case child_by_field_name macro ''name'' of
           None \<Rightarrow> None
         | Some var_name \<Rightarrow>
             if ntext var_name = [] then None
             else Some (conds @
                    [(if prefix ''#ifdef'' (ntext macro) then ''ifdef'' else ''ifndef'',
                      ntext var_name)]))
      else if ntype macro \<in> set [''preproc_if'', ''preproc_elif''] then
        (case child_by_field_name macro ''condition'' of
           None \<Rightarrow> None
         | Some condition \<Rightarrow>
             if ntext condition = [] then None
             else Some (conds @ [(''if'', ntext condition)]))
      else Some conds)"

function process_macro_block ::
  "node \<Rightarrow> string \<Rightarrow> (string \<times> string) list \<Rightarrow> cpp_source_code_file
     \<Rightarrow> cpp_source_code_file" where
  "process_macro_block macro namespace conds file =
     (case own_condition macro (reverse_last_condition conds) of
        None \<Rightarrow> file
      | Some conds1 \<Rightarrow>
          (case child_by_field_name macro ''alternative'' of
             Some alternative \<Rightarrow>
               process_macro_block alternative namespace conds1
                 (file\<lparr>macro_blocks := macro_blocks file @
                    [\<lparr>conditions = conds1, pos_source_file = source_file file,
                      line_start = start_row macro, line_end = start_row alternative\<rparr>]\<rparr>)
           | None \<Rightarrow>
               file\<lparr>macro_blocks := macro_blocks file @
                 [\<lparr>conditions = conds1, pos_source_file = source_file file,
                   line_start = start_row macro, line_end = end_row macro\<rparr>]\<rparr>))"
  by pat_completeness auto
termination
  by (relation "measure (\<lambda>(m, _, _, _). size m)") (auto simp: child_by_field_name_size)

declare process_macro_block.simps [simp del]

subsection \<open>The tree walk\<close>

definition process_function_node ::
  "node \<Rightarrow> node list \<Rightarrow> string \<Rightarrow> cpp_source_code_file \<Rightarrow> error + cpp_source_code_file" where
  "process_function_node n ancestors namespace file =
     (case FunctionDefinition n ancestors (source_file file) namespace of
        Inl e \<Rightarrow> Inl e
      | Inr func \<Rightarrow>
          Inr (if valid func then file\<lparr>func_defs := func_defs file @ [func]\<rparr> else file))"

definition extend_namespace :: "string \<Rightarrow> string \<Rightarrow> string" where
  "extend_namespace namespace txt =
     (let ns = namespace @ ''::'' @ txt in if prefix ''::'' ns then drop 2 ns else ns)"

text \<open>The scope under which the namespace handler walks the namespace node.\<close>

definition namespace_scope :: "node \<Rightarrow> string \<Rightarrow> string" where
  "namespace_scope n namespace =
     (case child_by_field_name n ''name'' of
        None \<Rightarrow> namespace
      | Some new_namespace \<Rightarrow>
          if ntype new_namespace = ''nested_namespace_specifier'' then
            foldl (\<lambda>ns child.
                     if \<not> is_named child \<or> ntext child = [] then ns
                     else extend_namespace ns (ntext child))
                  namespace (children new_namespace)
          else if ntype new_namespace = ''namespace_identifier'' then
            (if ntext new_namespace \<noteq> [] then extend_namespace namespace (ntext new_namespace)
             else namespace)
          else namespace)"

text \<open>
  \<open>process_tree node namespace\<close> loops over the children of the node: it dispatches
  on the child's kind and then always walks the child itself.
  \<open>_process_namespace_node\<close> is the walk of the namespace node under the extended
  scope. The third argument is the list of ancestors of the nodes walked.
\<close>

fun process_tree ::
    "node \<Rightarrow> string \<Rightarrow> node list \<Rightarrow> cpp_source_code_file \<Rightarrow> error + cpp_source_code_file"
  and process_children ::
    "node list \<Rightarrow> string \<Rightarrow> node list \<Rightarrow> cpp_source_code_file \<Rightarrow> error + cpp_source_code_file"
where
  "process_tree (Node i t f x nm sr er eb cs) namespace ancestors file =
     process_children cs namespace (Node i t f x nm sr er eb cs # ancestors) file"
| "process_children [] namespace ancestors file = Inr file"
| "process_children (child # rest) namespace ancestors file =
     (case (if ntype child \<in> set [''function_definition'', ''preproc_function_def'']
            then process_function_node child ancestors namespace file
            else if ntype child = ''namespace_definition''
            then process_tree child (namespace_scope child namespace) ancestors file
            else if ntype child \<in> set [''preproc_ifdef'', ''preproc_if'']
            then Inr (process_macro_block child namespace [] file)
            else Inr file) of
        Inl e \<Rightarrow> Inl e
      | Inr file1 \<Rightarrow>
          (case process_tree child namespace ancestors file1 of
             Inl e \<Rightarrow> Inl e
           | Inr file2 \<Rightarrow> process_children rest namespace ancestors file2))"

text \<open>\<open>language_specific_process\<close>: the walk of a whole file from its root.\<close>

definition language_specific_process :: "string \<Rightarrow> node \<Rightarrow> error + cpp_source_code_file" where
  "language_specific_process path tree_root =
     process_tree tree_root [] [] \<lparr>source_file = path, func_defs = [], macro_blocks = []\<rparr>"

text \<open>
  \<open>CppSourceCodeFile.get_function_node(target_function_name, exact)\<close>: the first
  function of the file that matches, as its index in \<open>func_defs\<close>.
\<close>

definition find_index :: "('a \<Rightarrow> bool) \<Rightarrow> 'a list \<Rightarrow> nat option" where
  "find_index p xs = map_option fst (find (\<lambda>(j, x). p x) (enumerate 0 xs))"

definition check_name_matches :: "string \<Rightarrow> function_definition \<Rightarrow> bool" where
  "check_name_matches target_function_name func =
     (if namespace_or_class func \<noteq> []
      then namespace_or_class func @ ''::'' @ name func = target_function_name
      else name func = target_function_name)"

definition file_get_function_node ::
  "cpp_source_code_file \<Rightarrow> string \<Rightarrow> bool \<Rightarrow> nat option" where
  "file_get_function_node file target_function_name exact =
     (case find_index (check_name_matches target_function_name) (func_defs file) of
        Some j \<Rightarrow> Some j
      | None \<Rightarrow>
          if exact then None
          else
            (case find_index (\<lambda>func. name func = target_function_name) (func_defs file) of
               Some j \<Rightarrow> Some j
             | None \<Rightarrow>
                 find_index (\<lambda>func. name func = last (split_scope target_function_name))
                   (func_defs file)))"

section \<open>CppProject\<close>

text \<open>
  The function objects are owned by the files and shared with the project's
  \<open>all_functions\<close> list and with the module-level cache, and they are mutated through
  all of them. A reference to a function object is therefore the pair (index of the
  file in \<open>source_code_files\<close>, index of the function in that file's \<open>func_defs\<close>).

  The state holds the module-level \<open>_function_node_cache\<close>, a dictionary from
  (name, namespace, one_layer_only) to a function object, next to the attributes of the
  project. The report keeps, for each source, its path and function names, and the
  list of per-function entries; the type catalogues and the include set that the
  source copies into it are left out with the handlers that fill them.
\<close>

type_synonym func_ref = "nat \<times> nat"

record func_dict =
  functionName :: string
  functionSourceFile :: string
  functionLinenumber :: nat
  functionLinenumberEnd :: nat
  linkageType :: string
  func_position :: "nat \<times> nat"
  CyclomaticComplexity :: int
  EdgeCount :: int
  ICount :: int
  argNames :: "string list"
  argTypes :: "string list"
  argCount :: nat
  returnType :: string
  BBCount :: int
  signature :: string
  assertStmts :: "(string \<times> string \<times> nat \<times> nat) list"
  Callsites :: "(string \<times> string) list"
  functionUses :: int
  functionDepth :: int
  functionsReached :: "string list"

record report =
  report_name :: string
  sources :: "(string \<times> string list) list"
  fuzzing_method :: string
  fuzzer_filename :: string
  all_functions_elements :: "func_dict list option"

record cpp_project =
  function_node_cache :: "((string \<times> string \<times> bool) \<times> func_ref) list"
  source_code_files :: "cpp_source_code_file list"
  all_functions :: "func_ref list"
  internal_func_list :: "func_dict list"
  project_report :: report

definition func_at :: "cpp_source_code_file list \<Rightarrow> func_ref \<Rightarrow> function_definition" where
  "func_at files r = func_defs (files ! fst r) ! snd r"

definition update_func ::
  "func_ref \<Rightarrow> (function_definition \<Rightarrow> function_definition) \<Rightarrow> cpp_source_code_file list
     \<Rightarrow> cpp_source_code_file list" where
  "update_func r g files =
     files[fst r := (files ! fst r)
       \<lparr>func_defs := (func_defs (files ! fst r))[snd r := g (func_at files r)]\<rparr>]"

text \<open>\<open>CppProject.get_function_from_name\<close>\<close>

definition get_function_from_name :: "cpp_project \<Rightarrow> string \<Rightarrow> func_ref option" where
  "get_function_from_name P function_name =
     find (\<lambda>func. name (func_at (source_code_files P) func) = function_name) (all_functions P)"

subsection \<open>Source lookup\<close>

text \<open>One pass of \<open>_find_source_with_func_def\<close> over the files: the last function found
  and the files that have one.\<close>

fun source_pass ::
  "string \<Rightarrow> bool \<Rightarrow> (nat \<times> cpp_source_code_file) list \<Rightarrow> func_ref option \<times> nat list
     \<Rightarrow> func_ref option \<times> nat list" where
  "source_pass nm exact [] acc = acc"
| "source_pass nm exact ((i, source_code) # rest) (return_func, source_codes_with_target) =
     (case file_get_function_node source_code nm exact of
        Some j \<Rightarrow> source_pass nm exact rest (Some (i, j), source_codes_with_target @ [i])
      | None \<Rightarrow> source_pass nm exact rest (return_func, source_codes_with_target))"

definition find_source_with_func_def ::
  "cpp_source_code_file list \<Rightarrow> string \<Rightarrow> (nat \<times> func_ref) option" where
  "find_source_with_func_def files nm =
     (case source_pass nm True (enumerate 0 files) (None, []) of
        (Some return_func, [i]) \<Rightarrow> Some (i, return_func)
      | _ \<Rightarrow>
          (case source_pass nm False (enumerate 0 files) (None, []) of
             (Some return_func, [i]) \<Rightarrow> Some (i, return_func)
           | _ \<Rightarrow> None))"

subsection \<open>Project-wide lookup\<close>

text \<open>The last loop of \<open>get_function_node\<close>: for each \<open>count\<close>, the first function whose
  name ends with the components from \<open>count\<close> on, joined.\<close>

fun suffix_lookup ::
  "cpp_source_code_file list \<Rightarrow> func_ref list \<Rightarrow> string list \<Rightarrow> func_ref option" where
  "suffix_lookup files function_list [] = None"
| "suffix_lookup files function_list (part # parts) =
     (case find (\<lambda>func. suffix (join_scope (part # parts)) (name (func_at files func)))
             function_list of
        Some func \<Rightarrow> Some func
      | None \<Rightarrow> suffix_lookup files function_list parts)"

definition cache_store ::
  "string \<times> string \<times> bool \<Rightarrow> func_ref \<Rightarrow> cpp_project \<Rightarrow> cpp_project" where
  "cache_store cache_key func P =
     P\<lparr>function_node_cache := AList.update cache_key func (function_node_cache P)\<rparr>"

definition get_function_node ::
  "string \<Rightarrow> func_ref list \<Rightarrow> bool \<Rightarrow> string \<Rightarrow> cpp_project
     \<Rightarrow> func_ref option \<times> cpp_project" where
  "get_function_node target_name function_list one_layer_only namespace P =
     (let cache_key = (target_name, namespace, one_layer_only);
          files = source_code_files P
      in case map_of (function_node_cache P) cache_key of
           Some func \<Rightarrow> (Some func, P)
         | None \<Rightarrow>
         (case find (\<lambda>func. target_name = name (func_at files func)) function_list of
            Some func \<Rightarrow> (Some func, cache_store cache_key func P)
          | None \<Rightarrow>
          (case (if namespace \<noteq> []
                 then find (\<lambda>func. namespace @ ''::'' @ target_name = name (func_at files func))
                        function_list
                 else None) of
             Some func \<Rightarrow> (Some func, cache_store cache_key func P)
           | None \<Rightarrow>
               if \<not> sublist ''::'' target_name then (None, P)
               else if prefix ''std::'' target_name then (None, P)
               else
                 (case suffix_lookup files function_list
                         (if one_layer_only then split_scope_once target_name
                          else split_scope target_name) of
                    Some func \<Rightarrow> (Some func, cache_store cache_key func P)
                  | None \<Rightarrow> (None, P)))))"

subsection \<open>Function depth\<close>

text \<open>
  \<open>_recursive_function_depth\<close> on the objects of the files and the \<open>visited\<close> list of
  the enclosing call. \<open>depth_of_callsites\<close> is its loop over the call sites, with the
  depth found so far. The recursion is nested: the loop goes on in the state that the
  call on a callee returns. It terminates because every descent puts the name of one
  more function of the project into \<open>visited\<close>; the facts before the termination
  proof say that a call keeps the names of the project and only adds to \<open>visited\<close>.
\<close>

definition all_names :: "cpp_source_code_file list \<Rightarrow> string set" where
  "all_names files = (\<Union>file \<in> set files. name ` set (func_defs file))"

definition valid_ref :: "cpp_source_code_file list \<Rightarrow> func_ref \<Rightarrow> bool" where
  "valid_ref files r \<longleftrightarrow> fst r < length files \<and> snd r < length (func_defs (files ! fst r))"

lemma find_index_Some: "find_index p xs = Some j \<Longrightarrow> j < length xs \<and> p (xs ! j)"
  by (auto simp: find_index_def find_Some_iff in_set_enumerate_eq nth_enumerate_eq)

lemma file_get_function_node_Some:
  "file_get_function_node file nm ex = Some j \<Longrightarrow> j < length (func_defs file)"
  by (auto simp: file_get_function_node_def split: option.splits if_splits dest: find_index_Some)

lemma source_pass_valid:
  "source_pass nm ex ixs acc = (Some r, l) \<Longrightarrow>
   (\<forall>(i, f) \<in> set ixs. i < length files \<and> files ! i = f) \<Longrightarrow>
   (\<forall>r. fst acc = Some r \<longrightarrow> valid_ref files r) \<Longrightarrow> valid_ref files r"
proof (induction nm ex ixs acc rule: source_pass.induct)
  case (1 nm exact acc)
  then show ?case by simp
next
  case (2 nm exact i source_code rest return_func source_codes_with_target)
  then show ?case
    by (auto simp: valid_ref_def split: option.splits dest: file_get_function_node_Some)
qed

lemma find_source_valid:
  "find_source_with_func_def files nm = Some (i, r) \<Longrightarrow> valid_ref files r"
  unfolding find_source_with_func_def_def
  by (auto split: prod.splits option.splits list.splits
      dest!: source_pass_valid[where files = files] simp: in_set_enumerate_eq)

lemma valid_ref_name: "valid_ref files r \<Longrightarrow> name (func_at files r) \<in> all_names files"
  by (auto simp: valid_ref_def all_names_def func_at_def intro!: bexI[of _ "files ! fst r"])

lemma finite_all_names: "finite (all_names files)"
  by (simp add: all_names_def)

lemma map_list_update_same:
  assumes "f y = f (xs ! i)"
  shows "map f (xs[i := y]) = map f xs"
proof (cases "i < length xs")
  case True
  with assms show ?thesis
    by (simp add: map_update list_update_same_conv)
next
  case False
  then show ?thesis by (simp add: not_less list_update_beyond)
qed

lemma all_names_update_func:
  assumes "\<And>f. name (g f) = name f"
  shows "all_names (update_func r g files) = all_names files"
proof -
  have "map (\<lambda>file. map name (func_defs file)) (update_func r g files)
        = map (\<lambda>file. map name (func_defs file)) files"
    unfolding update_func_def func_at_def
    by (rule map_list_update_same) (simp add: map_list_update_same assms)
  then have "set (concat (map (\<lambda>file. map name (func_defs file)) (update_func r g files)))
        = set (concat (map (\<lambda>file. map name (func_defs file)) files))"
    by simp
  then show ?thesis
    by (simp add: all_names_def)
qed

function recursive_function_depth ::
    "func_ref \<Rightarrow> cpp_source_code_file list \<times> string list
       \<Rightarrow> int \<times> cpp_source_code_file list \<times> string list"
  and depth_of_callsites ::
    "func_ref \<Rightarrow> (string \<times> nat) list \<Rightarrow> int \<Rightarrow> cpp_source_code_file list \<times> string list
       \<Rightarrow> int \<times> cpp_source_code_file list \<times> string list"
where
  "recursive_function_depth func (files, visited) =
     (if depth (func_at files func) \<noteq> - 1 then (depth (func_at files func), files, visited)
      else if base_callsites (func_at files func) = [] then (0, files, visited)
      else depth_of_callsites func (base_callsites (func_at files func)) 0
             (files, visited @ [name (func_at files func)]))"
| "depth_of_callsites func [] cur (files, visited) = (cur, files, visited)"
| "depth_of_callsites func (callsite # rest) cur (files, visited) =
     (case find_source_with_func_def files (fst callsite) of
        None \<Rightarrow> depth_of_callsites func rest cur (files, visited @ [fst callsite])
      | Some target \<Rightarrow>
          if name (func_at files (snd target)) \<in> set visited
          then depth_of_callsites func rest (max cur 1) (files, visited)
          else
            (case recursive_function_depth (snd target) (files, visited) of
               (d, files1, visited1) \<Rightarrow>
                 depth_of_callsites func rest (max cur (d + 1))
                   (update_func func (\<lambda>f. f\<lparr>depth := max cur (d + 1)\<rparr>) files1, visited1)))"
  by pat_completeness auto

lemma depth_partial:
  "recursive_function_depth_depth_of_callsites_dom (Inl (func, s)) \<Longrightarrow>
     set (snd s) \<subseteq> set (snd (snd (recursive_function_depth func s)))
     \<and> all_names (fst (snd (recursive_function_depth func s))) = all_names (fst s)"
  "recursive_function_depth_depth_of_callsites_dom (Inr (func', cs, cur, s')) \<Longrightarrow>
     set (snd s') \<subseteq> set (snd (snd (depth_of_callsites func' cs cur s')))
     \<and> all_names (fst (snd (depth_of_callsites func' cs cur s'))) = all_names (fst s')"
proof (induct func s and func' cs cur s' rule: recursive_function_depth_depth_of_callsites.pinduct)
  case (1 func files visited)
  then show ?case
    by (auto simp: recursive_function_depth.psimps)
next
  case (2 func cur files visited)
  then show ?case
    by (simp add: depth_of_callsites.psimps)
next
  case (3 func callsite rest cur files visited)
  show ?case
  proof (cases "find_source_with_func_def files (fst callsite)")
    case None
    with 3(1) 3(2) show ?thesis
      by (auto simp: depth_of_callsites.psimps)
  next
    case (Some target)
    show ?thesis
    proof (cases "name (func_at files (snd target)) \<in> set visited")
      case True
      with Some 3(1) 3(3) show ?thesis
        by (auto simp: depth_of_callsites.psimps)
    next
      case False
      obtain d files1 visited1 where r:
        "recursive_function_depth (snd target) (files, visited) = (d, files1, visited1)"
        by (cases "recursive_function_depth (snd target) (files, visited)") auto
      from 3(4)[OF Some False] r
      have a: "set visited \<subseteq> set visited1" "all_names files1 = all_names files"
        by auto
      from 3(5)[OF Some False r[symmetric] refl]
      have b: "set visited1 \<subseteq> set (snd (snd (depth_of_callsites func rest (max cur (d + 1))
                 (update_func func (depth_update (\<lambda>_. max cur (d + 1))) files1, visited1))))"
        "all_names (fst (snd (depth_of_callsites func rest (max cur (d + 1))
                 (update_func func (depth_update (\<lambda>_. max cur (d + 1))) files1, visited1))))
         = all_names files1"
        by (auto simp: all_names_update_func)
      from Some False r a b 3(1) show ?thesis
        by (auto simp: depth_of_callsites.psimps)
    qed
  qed
qed

termination recursive_function_depth
proof (relation "inv_image (less_than <*lex*> less_than <*lex*> less_than)
     (\<lambda>x. case x of
        Inl (func, files, visited) \<Rightarrow>
          (card (all_names files - set (visited @ [name (func_at files func)])), 1::nat, 0::nat)
      | Inr (func, cs, cur, files, visited) \<Rightarrow>
          (card (all_names files - set visited), 0, length cs))", goal_cases)
  case 1
  show ?case by (intro wf_inv_image wf_lex_prod wf_less_than)
next
  case (2 func files visited)
  then show ?case by simp
next
  case (3 func callsite rest cur files visited)
  have "card (all_names files - set (visited @ [fst callsite])) \<le> card (all_names files - set visited)"
    by (rule card_mono) (auto simp: finite_all_names)
  then show ?case by auto
next
  case (4 func callsite rest cur files visited x2)
  then show ?case by simp
next
  case (5 func callsite rest cur files visited x2)
  then have "valid_ref files (snd x2)"
    by (cases x2) (auto dest: find_source_valid)
  then have "name (func_at files (snd x2)) \<in> all_names files - set visited"
    using 5 by (simp add: valid_ref_name)
  then have "card (all_names files - set (visited @ [name (func_at files (snd x2))]))
             < card (all_names files - set visited)"
    by (intro psubset_card_mono) (auto simp: finite_all_names)
  then show ?case by simp
next
  case (6 func callsite rest cur files visited x2 d y files1 visited1)
  from depth_partial(1)[OF 6(5)] 6(3) 6(4)
  have a: "set visited \<subseteq> set visited1" "all_names files1 = all_names files"
    by (auto simp: prod_eq_iff dest: sym)
  have "card (all_names files - set visited1) \<le> card (all_names files - set visited)"
    by (rule card_mono) (use a in \<open>auto simp: finite_all_names\<close>)
  then show ?case
    by (auto simp: a all_names_update_func)
qed

declare recursive_function_depth.simps [simp del]
declare depth_of_callsites.simps [simp del]

text \<open>\<open>_calculate_function_depth\<close>: a fresh \<open>visited\<close> list for each call.\<close>

definition calculate_function_depth :: "func_ref \<Rightarrow> cpp_project \<Rightarrow> int \<times> cpp_project" where
  "calculate_function_depth target_function P =
     (case recursive_function_depth target_function (source_code_files P, []) of
        (func_depth, files, visited) \<Rightarrow> (func_depth, P\<lparr>source_code_files := files\<rparr>))"

subsection \<open>Call-site extraction\<close>

text \<open>
  The methods of a function object that need the project take the reference \<open>self\<close> of
  the object and the state; they read the attributes of the object from the state,
  change its variable map in the state, and fill the cache through
  \<open>get_function_node\<close>.
\<close>

definition self_func :: "func_ref \<Rightarrow> cpp_project \<Rightarrow> function_definition" where
  "self_func self P = func_at (source_code_files P) self"

text \<open>
  \<open>_process_field_expr_return_type\<close>, returning (ret_type, full_name). The object type
  found for the argument is absent, or a text; \<open>bail\<close> is the early return on an
  argument that is itself a call.
\<close>

datatype object_type = Bail | Object "string option"

function process_field_expr_return_type ::
  "func_ref \<Rightarrow> node \<Rightarrow> cpp_project \<Rightarrow> (string option \<times> string) \<times> cpp_project" where
  "process_field_expr_return_type self field_expr P =
     (case child_by_field_name field_expr ''argument'' of
        None \<Rightarrow> ((None, []), P)
      | Some arg \<Rightarrow>
     (case child_by_field_name field_expr ''field'' of
        None \<Rightarrow> ((None, []), P)
      | Some field \<Rightarrow>
          (let full_name =
                 (if ntype field = ''template_method'' then
                    (case child_by_field_name field ''name'' of
                       None \<Rightarrow> []
                     | Some name_node \<Rightarrow> ntext name_node)
                  else ntext field)
           in case (if ntype arg = ''field_expression'' then
                      (case process_field_expr_return_type self arg P of
                         ((ret, inner_name), P1) \<Rightarrow> (Object (Some inner_name), P1))
                    else if ntype arg = ''this'' then
                      (Object (Some (namespace_or_class (self_func self P))), P)
                    else if ntype arg \<in> set [''identifier'', ''qualified_identifier''] then
                      (Object (if ntext arg \<noteq> []
                               then map_of (var_map (self_func self P)) (ntext arg)
                               else None), P)
                    else if ntype arg = ''call_expression'' then (Bail, P)
                    else (Object None, P)) of
                (Bail, P1) \<Rightarrow> ((Some [], []), P1)
              | (Object None, P1) \<Rightarrow> ((None, full_name), P1)
              | (Object (Some obj), P1) \<Rightarrow>
                  if obj = [] then ((None, full_name), P1)
                  else
                    (let full_name1 =
                           (if obj \<noteq> ''void'' then obj @ ''::'' @ full_name else full_name)
                     in case get_function_node full_name1 (all_functions P1) False [] P1 of
                          (None, P2) \<Rightarrow> ((None, full_name1), P2)
                        | (Some n, P2) \<Rightarrow>
                            ((Some (return_type (func_at (source_code_files P2) n)), full_name1),
                             P2)))))"
  by pat_completeness auto
termination
  by (relation "measure (\<lambda>(_, n, _). size n)") (auto simp: child_by_field_name_size)

declare process_field_expr_return_type.simps [simp del]

text \<open>The target of a direct call: the name of the matched function, else the name of
  the function matched on the \<open>name\<close> field of the callee, else the callee's text.\<close>

definition direct_call_target :: "func_ref \<Rightarrow> node \<Rightarrow> cpp_project \<Rightarrow> string \<times> cpp_project" where
  "direct_call_target self func P =
     (case get_function_node (ntext func) (all_functions P) False
             (namespace_or_class (self_func self P)) P of
        (Some matched_func, P1) \<Rightarrow> (name (func_at (source_code_files P1) matched_func), P1)
      | (None, P1) \<Rightarrow>
          (case child_by_field_name func ''name'' of
             None \<Rightarrow> (ntext func, P1)
           | Some name_node \<Rightarrow>
               if ntext name_node = [] then (ntext func, P1)
               else
                 (case get_function_node (ntext name_node) (all_functions P1) False
                         (namespace_or_class (self_func self P1)) P1 of
                    (Some matched_func2, P2) \<Rightarrow>
                      (name (func_at (source_code_files P2) matched_func2), P2)
                  | (None, P2) \<Rightarrow> (ntext func, P2))))"

definition process_invoke :: "func_ref \<Rightarrow> node \<Rightarrow> cpp_project \<Rightarrow> callsite list \<times> cpp_project" where
  "process_invoke self expr P =
     (case child_by_field_name expr ''function'' of
        None \<Rightarrow> ([], P)
      | Some func \<Rightarrow>
          (case (if ntype func \<in> set [''identifier'', ''qualified_identifier'', ''template_function'']
                    \<and> ntext func \<noteq> []
                 then direct_call_target self func P
                 else if ntype func = ''field_expression''
                 then (case process_field_expr_return_type self func P of
                         ((ret, full_name), P1) \<Rightarrow> (full_name, P1))
                 else ([], P)) of
             (target_name, P1) \<Rightarrow>
               if target_name = [] then ([], P1)
               else
                 (let scope = namespace_or_class (self_func self P1);
                      target_name1 =
                        (if \<not> sublist ''::'' target_name \<and> scope \<noteq> []
                            \<and> (\<exists>tmp_func \<in> set (all_functions P1).
                                   name (func_at (source_code_files P1) tmp_func)
                                     = scope @ ''::'' @ target_name)
                         then scope @ ''::'' @ target_name
                         else target_name)
                  in ([(target_name1, end_byte func, start_row func + 1)], P1))))"

text \<open>The text of the declared type of a declaration, from its \<open>type\<close> field.\<close>

definition declared_type :: "node \<Rightarrow> string" where
  "declared_type var_type_obj =
     (let (var_type, obj) =
            (if ntype var_type_obj = ''qualified_identifier'' then
               ((case child_by_field_name var_type_obj ''scope'' of
                   None \<Rightarrow> []
                 | Some scope \<Rightarrow> ntext scope) @ ''::'',
                child_by_field_name var_type_obj ''name'')
             else ([], Some var_type_obj))
      in case obj of
           None \<Rightarrow> var_type
         | Some n \<Rightarrow>
             if ntype n = ''template_type'' then
               (case child_by_field_name n ''name'' of
                  None \<Rightarrow> var_type
                | Some template_name \<Rightarrow> var_type @ ntext template_name)
             else var_type @ ntext n)"

definition constructor_name :: "string \<Rightarrow> string" where
  "constructor_name cls = cls @ ''::'' @ last (rsplit_scope cls)"

definition set_var :: "func_ref \<Rightarrow> string \<Rightarrow> string \<Rightarrow> cpp_project \<Rightarrow> cpp_project" where
  "set_var self k v P =
     P\<lparr>source_code_files :=
         update_func self (\<lambda>f. f\<lparr>var_map := AList.update k v (var_map f)\<rparr>) (source_code_files P)\<rparr>"

definition process_declaration :: "func_ref \<Rightarrow> node \<Rightarrow> cpp_project \<Rightarrow> callsite list \<times> cpp_project" where
  "process_declaration self stmt P =
     (case child_by_field_name stmt ''type'' of
        None \<Rightarrow> ([], P)
      | Some var_type_obj \<Rightarrow>
          if ntype var_type_obj \<in> set [''primitive_type'', ''sized_type_specifier''] then ([], P)
          else
            (let var_type = declared_type var_type_obj
             in case child_by_field_name stmt ''declarator'' of
                  None \<Rightarrow> ([], P)
                | Some var_name \<Rightarrow>
                    if ntext var_name = [] then ([], P)
                    else
                      (let callsites =
                             (if ntype var_name = ''identifier''
                                 \<and> get_function_from_name P (constructor_name var_type) \<noteq> None
                              then [(constructor_name var_type, end_byte stmt, start_row stmt + 1)]
                              else [])
                       in case unwrap_declarator var_name of
                            None \<Rightarrow> ([], P)
                          | Some var_name1 \<Rightarrow>
                              (let (pcount, acount, var_name2) =
                                     extract_pointer_array_from_type var_name1
                               in (callsites,
                                   if ntext var_name2 \<noteq> []
                                   then set_var self (strip_amp (ntext var_name2))
                                          (decorate_type var_type pcount acount) P
                                   else P)))))"

definition process_callsites :: "func_ref \<Rightarrow> node \<Rightarrow> cpp_project \<Rightarrow> callsite list \<times> cpp_project" where
  "process_callsites self stmt P =
     (if ntype stmt = ''call_expression'' then process_invoke self stmt P
      else if ntype stmt = ''new_expression'' then
        (case child_by_field_name stmt ''type'' of
           None \<Rightarrow> ([], P)
         | Some ctr_type \<Rightarrow>
             if ntext ctr_type = [] then ([], P)
             else ([(constructor_name (ntext ctr_type), end_byte stmt, start_row stmt + 1)], P))
      else if ntype stmt = ''declaration'' then process_declaration self stmt P
      else ([], P))"

text \<open>
  The cursor loop of \<open>extract_callsites\<close> reaches the nodes below the root in document
  order (\<open>preorder\<close>) and processes each node whose identity it has not yet seen.
\<close>

fun walk_callsites ::
  "func_ref \<Rightarrow> node list \<Rightarrow> nat list \<Rightarrow> callsite list \<Rightarrow> cpp_project
     \<Rightarrow> callsite list \<times> cpp_project" where
  "walk_callsites self [] visited callsites P = (callsites, P)"
| "walk_callsites self (n # rest) visited callsites P =
     (if nid n \<in> set visited then walk_callsites self rest visited callsites P
      else
        (case process_callsites self n P of
           (found, P1) \<Rightarrow> walk_callsites self rest (visited @ [nid n]) (callsites @ found) P1))"

text \<open>
  \<open>sorted(set(callsites), key=lambda x: x[1])\<close>. The order in which a Python set yields
  its elements is not fixed; \<open>remdups\<close> is one such order. The sort is stable, so the
  choice only shows between call sites that have the same byte offset.
\<close>

definition sorted_callsites :: "callsite list \<Rightarrow> callsite list" where
  "sorted_callsites callsites = sort_key (\<lambda>x. fst (snd x)) (remdups callsites)"

definition src_loc :: "string \<Rightarrow> nat \<Rightarrow> string" where
  "src_loc file src_line = file @ '':'' @ str_nat src_line @ '',1''"

definition extract_callsites :: "func_ref \<Rightarrow> cpp_project \<Rightarrow> cpp_project" where
  "extract_callsites self P =
     (let P1 =
            (if base_callsites (self_func self P) = [] then
               (case walk_callsites self (preorder (root (self_func self P))) [] [] P of
                  (callsites, P') \<Rightarrow>
                    P'\<lparr>source_code_files :=
                         update_func self
                           (\<lambda>f. f\<lparr>base_callsites :=
                                    map (\<lambda>x. (fst x, snd (snd x))) (sorted_callsites callsites)\<rparr>)
                           (source_code_files P')\<rparr>)
             else P)
      in if detailed_callsites (self_func self P1) = [] then
           P1\<lparr>source_code_files :=
                update_func self
                  (\<lambda>f. f\<lparr>detailed_callsites := detailed_callsites f @
                           map (\<lambda>(dst, src_line). (src_loc (parent_source_file f) src_line, dst))
                             (base_callsites f)\<rparr>)
                  (source_code_files P1)\<rparr>
         else P1)"

subsection \<open>Reachable functions\<close>

text \<open>
  \<open>get_reachable_functions\<close> with the name of the function and the set
  \<open>visited_functions\<close>; a call that passes no set starts from the empty one.
  \<open>reachable_from_callsites\<close> is its loop over the call sites of the function node.
  The recursion is nested like that of the depth. A descent only follows a call site
  that is not yet visited and visits it, and the call sites come from the functions
  that the project or the cache knows about: they are finitely many.
\<close>

definition known_refs :: "cpp_project \<Rightarrow> func_ref set" where
  "known_refs P = set (all_functions P) \<union> snd ` set (function_node_cache P)"

definition callsite_names :: "cpp_project \<Rightarrow> string set" where
  "callsite_names P =
     (\<Union>r \<in> known_refs P. fst ` set (base_callsites (func_at (source_code_files P) r)))"

lemma finite_callsite_names: "finite (callsite_names P)"
  by (simp add: callsite_names_def known_refs_def)

lemma set_alist_update:
  "x \<in> set (AList.update k v al) \<Longrightarrow> x = (k, v) \<or> x \<in> set al"
  by (induction al) (auto split: if_splits)

lemma suffix_lookup_mem: "suffix_lookup files fl parts = Some r \<Longrightarrow> r \<in> set fl"
  by (induction parts) (auto split: option.splits simp: find_Some_iff)

lemma find_mem: "find p xs = Some x \<Longrightarrow> x \<in> set xs"
  by (auto simp: find_Some_iff)

text \<open>The search of \<open>get_function_node\<close> when the cache has no entry for the key.\<close>

definition uncached_lookup ::
  "string \<Rightarrow> func_ref list \<Rightarrow> bool \<Rightarrow> string \<Rightarrow> cpp_source_code_file list \<Rightarrow> func_ref option" where
  "uncached_lookup target_name function_list one_layer_only namespace files =
     (case find (\<lambda>func. target_name = name (func_at files func)) function_list of
        Some func \<Rightarrow> Some func
      | None \<Rightarrow>
      (case (if namespace \<noteq> []
             then find (\<lambda>func. namespace @ ''::'' @ target_name = name (func_at files func))
                    function_list
             else None) of
         Some func \<Rightarrow> Some func
       | None \<Rightarrow>
           if \<not> sublist ''::'' target_name then None
           else if prefix ''std::'' target_name then None
           else suffix_lookup files function_list
                  (if one_layer_only then split_scope_once target_name
                   else split_scope target_name)))"

lemma get_function_node_eq:
  "get_function_node t fl olo ns P =
     (case map_of (function_node_cache P) (t, ns, olo) of
        Some func \<Rightarrow> (Some func, P)
      | None \<Rightarrow>
          (case uncached_lookup t fl olo ns (source_code_files P) of
             Some func \<Rightarrow> (Some func, cache_store (t, ns, olo) func P)
           | None \<Rightarrow> (None, P)))"
  unfolding get_function_node_def uncached_lookup_def Let_def
  by (simp split: option.splits)

lemma uncached_lookup_mem: "uncached_lookup t fl olo ns files = Some r \<Longrightarrow> r \<in> set fl"
  unfolding uncached_lookup_def
  by (simp split: option.splits if_splits add: find_mem suffix_lookup_mem)


lemma known_refs_cache_store:
  "r \<in> known_refs P \<Longrightarrow> known_refs (cache_store k r P) \<subseteq> known_refs P"
  by (force simp: known_refs_def cache_store_def dest: set_alist_update)

lemma get_function_node_frame:
  assumes "get_function_node t (all_functions P) olo ns P = (res, P')"
  shows "source_code_files P' = source_code_files P" "all_functions P' = all_functions P"
    "known_refs P' \<subseteq> known_refs P" "res = Some r \<Longrightarrow> r \<in> known_refs P"
proof -
  have "source_code_files P' = source_code_files P \<and> all_functions P' = all_functions P
      \<and> known_refs P' \<subseteq> known_refs P \<and> (res = Some r \<longrightarrow> r \<in> known_refs P)"
  proof (cases "map_of (function_node_cache P) (t, ns, olo)")
    case (Some f)
    from map_of_SomeD[OF Some] have "snd ((t, ns, olo), f) \<in> snd ` set (function_node_cache P)"
      by (rule imageI)
    then have "f \<in> known_refs P"
      by (simp add: known_refs_def)
    moreover from Some assms have "P' = P" "res = Some f"
      by (simp_all add: get_function_node_eq)
    ultimately show ?thesis by auto
  next
    case None
    show ?thesis
    proof (cases "uncached_lookup t (all_functions P) olo ns (source_code_files P)")
      case n: None
      with None assms show ?thesis
        by (simp add: get_function_node_eq)
    next
      case (Some f)
      then have "f \<in> known_refs P"
        by (auto simp: known_refs_def dest: uncached_lookup_mem)
      with None Some assms known_refs_cache_store[of f P "(t, ns, olo)"] show ?thesis
        by (auto simp: get_function_node_eq cache_store_def)
    qed
  qed
  then show "source_code_files P' = source_code_files P" "all_functions P' = all_functions P"
    "known_refs P' \<subseteq> known_refs P" "res = Some r \<Longrightarrow> r \<in> known_refs P"
    by auto
qed

lemma callsite_names_mono:
  "source_code_files P' = source_code_files P \<Longrightarrow> known_refs P' \<subseteq> known_refs P \<Longrightarrow>
   callsite_names P' \<subseteq> callsite_names P"
  by (auto simp: callsite_names_def)

function get_reachable_functions ::
    "string \<Rightarrow> string set \<Rightarrow> cpp_project \<Rightarrow> string set \<times> cpp_project"
  and reachable_from_callsites ::
    "(string \<times> nat) list \<Rightarrow> string set \<Rightarrow> cpp_project \<Rightarrow> string set \<times> cpp_project"
where
  "get_reachable_functions func visited_functions P =
     (if func = [] then (visited_functions, P)
      else
        (case get_function_node func (all_functions P) False [] P of
           (func_node, P1) \<Rightarrow>
             (case (func_node, find_source_with_func_def (source_code_files P) func) of
                (Some fn, Some source_code) \<Rightarrow>
                  reachable_from_callsites (base_callsites (func_at (source_code_files P1) fn))
                    (insert func visited_functions) P1
              | _ \<Rightarrow> (insert func visited_functions, P1))))"
| "reachable_from_callsites [] visited_functions P = (visited_functions, P)"
| "reachable_from_callsites (callsite # rest) visited_functions P =
     (if fst callsite \<in> visited_functions then reachable_from_callsites rest visited_functions P
      else
        (case get_reachable_functions (fst callsite) visited_functions P of
           (visited1, P1) \<Rightarrow> reachable_from_callsites rest visited1 P1))"
  by pat_completeness auto

lemma reachable_partial:
  "get_reachable_functions_reachable_from_callsites_dom (Inl (func, visited, P)) \<Longrightarrow>
     visited \<subseteq> fst (get_reachable_functions func visited P)
     \<and> source_code_files (snd (get_reachable_functions func visited P)) = source_code_files P
     \<and> all_functions (snd (get_reachable_functions func visited P)) = all_functions P
     \<and> known_refs (snd (get_reachable_functions func visited P)) \<subseteq> known_refs P"
  "get_reachable_functions_reachable_from_callsites_dom (Inr (cs, visited', P')) \<Longrightarrow>
     visited' \<subseteq> fst (reachable_from_callsites cs visited' P')
     \<and> source_code_files (snd (reachable_from_callsites cs visited' P')) = source_code_files P'
     \<and> all_functions (snd (reachable_from_callsites cs visited' P')) = all_functions P'
     \<and> known_refs (snd (reachable_from_callsites cs visited' P')) \<subseteq> known_refs P'"
proof (induct func visited P and cs visited' P'
    rule: get_reachable_functions_reachable_from_callsites.pinduct)
  case (1 func visited_functions P)
  obtain res P1 where g: "get_function_node func (all_functions P) False [] P = (res, P1)"
    by (cases "get_function_node func (all_functions P) False [] P") auto
  note fr = get_function_node_frame[OF g]
  show ?case
  proof (cases "func = []")
    case True
    with 1(1) show ?thesis by (simp add: get_reachable_functions.psimps)
  next
    case False
    show ?thesis
    proof (cases "\<exists>fn src. res = Some fn \<and> find_source_with_func_def (source_code_files P) func = Some src")
      case True
      then obtain fn src where s: "res = Some fn"
        "find_source_with_func_def (source_code_files P) func = Some src" by auto
      from 1(2)[OF False g[symmetric] refl s(1) s(2)] fr(1-3) 1(1) False g s
      show ?thesis
        by (auto simp: get_reachable_functions.psimps)
    next
      case False2: False
      with 1(1) False g fr(1-3) show ?thesis
        by (auto simp: get_reachable_functions.psimps split: option.splits)
    qed
  qed
next
  case (2 visited_functions P)
  then show ?case by (simp add: reachable_from_callsites.psimps)
next
  case (3 callsite rest visited_functions P)
  show ?case
  proof (cases "fst callsite \<in> visited_functions")
    case True
    with 3(1) 3(2) show ?thesis by (simp add: reachable_from_callsites.psimps)
  next
    case False
    obtain visited1 P1 where r:
      "get_reachable_functions (fst callsite) visited_functions P = (visited1, P1)"
      by (cases "get_reachable_functions (fst callsite) visited_functions P") auto
    from 3(3)[OF False] r 3(4)[OF False r[symmetric]] 3(1) False
    show ?thesis
      by (auto simp: reachable_from_callsites.psimps)
  qed
qed


termination get_reachable_functions
proof (relation "inv_image (less_than <*lex*> less_than <*lex*> less_than)
     (\<lambda>x. case x of
        Inl (func, visited, P) \<Rightarrow>
          (card (callsite_names P - insert func visited), 1::nat, 0::nat)
      | Inr (cs, visited, P) \<Rightarrow>
          (card ((callsite_names P \<union> fst ` set cs) - visited), 0, length cs))", goal_cases)
  case 1
  show ?case by (intro wf_inv_image wf_lex_prod wf_less_than)
next
  case (2 func visited P res P1 xa ya fn src)
  then have g: "get_function_node func (all_functions P) False [] P = (Some fn, P1)"
    by simp
  note fr = get_function_node_frame[OF g]
  from fr(4) have "fst ` set (base_callsites (func_at (source_code_files P) fn)) \<subseteq> callsite_names P"
    by (auto simp: callsite_names_def)
  moreover have "callsite_names P1 \<subseteq> callsite_names P"
    using fr by (intro callsite_names_mono) auto
  ultimately have "callsite_names P1 \<union> fst ` set (base_callsites (func_at (source_code_files P1) fn))
        - insert func visited \<subseteq> callsite_names P - insert func visited"
    using fr(1) by auto
  then have "card (callsite_names P1 \<union> fst ` set (base_callsites (func_at (source_code_files P1) fn))
        - insert func visited) \<le> card (callsite_names P - insert func visited)"
    by (intro card_mono) (auto simp: finite_callsite_names)
  then show ?case by auto
next
  case (3 callsite rest visited P)
  have "card ((callsite_names P \<union> fst ` set rest) - visited)
        \<le> card ((callsite_names P \<union> fst ` set (callsite # rest)) - visited)"
    by (intro card_mono) (auto simp: finite_callsite_names)
  then show ?case by auto
next
  case (4 callsite rest visited P)
  have "callsite_names P - insert (fst callsite) visited
        \<subset> (callsite_names P \<union> fst ` set (callsite # rest)) - visited"
    using 4 by auto
  then have "card (callsite_names P - insert (fst callsite) visited)
        < card ((callsite_names P \<union> fst ` set (callsite # rest)) - visited)"
    by (intro psubset_card_mono) (auto simp: finite_callsite_names)
  then show ?case by simp
next
  case (5 callsite rest visited P visited1 P1)
  from reachable_partial(1)[OF 5(3)] 5(2)
  have a: "visited \<subseteq> visited1" "source_code_files P1 = source_code_files P"
    "known_refs P1 \<subseteq> known_refs P"
    by (auto simp: prod_eq_iff dest: sym)
  then have "callsite_names P1 \<subseteq> callsite_names P"
    by (intro callsite_names_mono) auto
  with a have "(callsite_names P1 \<union> fst ` set rest) - visited1
        \<subseteq> (callsite_names P \<union> fst ` set (callsite # rest)) - visited"
    by auto
  then have "card ((callsite_names P1 \<union> fst ` set rest) - visited1)
        \<le> card ((callsite_names P \<union> fst ` set (callsite # rest)) - visited)"
    by (intro card_mono) (auto simp: finite_callsite_names)
  then show ?case by auto
qed


declare get_reachable_functions.simps [simp del]
declare reachable_from_callsites.simps [simp del]

subsection \<open>Report generation\<close>

text \<open>\<open>_calculate_function_uses\<close>: the functions of the files that have a call site
  whose target is, or ends with, the target name.\<close>

definition calculate_function_uses :: "cpp_project \<Rightarrow> string \<Rightarrow> int" where
  "calculate_function_uses P target_name =
     int (length (filter
       (\<lambda>func. \<exists>callsite \<in> set (base_callsites func).
                 fst callsite = target_name \<or> suffix target_name (fst callsite))
       (concat (map func_defs (source_code_files P)))))"

text \<open>The references to the functions of the files, file after file:
  \<open>all_functions.extend(source_code.func_defs)\<close>.\<close>

definition collect_functions :: "cpp_source_code_file list \<Rightarrow> func_ref list" where
  "collect_functions files =
     concat (map (\<lambda>(i, source_code). map (\<lambda>j. (i, j)) [0..<length (func_defs source_code)])
                 (enumerate 0 files))"

definition make_func_dict ::
  "function_definition \<Rightarrow> int \<Rightarrow> int \<Rightarrow> string list \<Rightarrow> func_dict" where
  "make_func_dict func func_uses func_depth reached =
     \<lparr> functionName = name func,
       functionSourceFile = parent_source_file func,
       functionLinenumber = start_line func,
       functionLinenumberEnd = end_line func,
       linkageType = [],
       func_position = (start_line func, end_line func),
       CyclomaticComplexity = complexity func,
       EdgeCount = complexity func,
       ICount = icount func,
       argNames = arg_names func,
       argTypes = arg_types func,
       argCount = length (arg_types func),
       returnType = return_type func,
       BBCount = bbcount func,
       signature = sig func,
       assertStmts = assert_stmts func,
       Callsites = detailed_callsites func,
       functionUses = func_uses,
       functionDepth = func_depth,
       functionsReached = reached \<rparr>"

text \<open>The loop over all functions: call sites, uses and depth of each, in this order.
  The set \<open>reached\<close> is listed in the order of \<open>remdups\<close>.\<close>

fun report_functions ::
  "func_ref list \<Rightarrow> func_dict list \<Rightarrow> cpp_project \<Rightarrow> func_dict list \<times> cpp_project" where
  "report_functions [] func_list P = (func_list, P)"
| "report_functions (func # rest) func_list P =
     (let P1 = extract_callsites func P;
          reached = remdups (map fst (base_callsites (self_func func P1)));
          func_uses = calculate_function_uses P1 (name (self_func func P1))
      in case calculate_function_depth func P1 of
           (func_depth, P2) \<Rightarrow>
             report_functions rest
               (func_list @ [make_func_dict (self_func func P2) func_uses func_depth reached])
               P2)"

definition generate_report :: "string \<Rightarrow> string \<Rightarrow> string \<Rightarrow> cpp_project \<Rightarrow> cpp_project" where
  "generate_report entry_function harness_name harness_source P =
     (let files = source_code_files P;
          P1 = P\<lparr>all_functions := collect_functions files,
                 project_report := (project_report P)
                   \<lparr>report_name := ''name'',
                    sources := map (\<lambda>source_code.
                                 (source_file source_code, map name (func_defs source_code))) files,
                    fuzzing_method := ''LLVMFuzzerTestOneInput'',
                    fuzzer_filename := harness_source\<rparr>\<rparr>;
          (func_list, P2) =
            (if internal_func_list P1 = [] then
               (case report_functions (all_functions P1) [] P1 of
                  (func_list, P') \<Rightarrow> (func_list, P'\<lparr>internal_func_list := func_list\<rparr>))
             else (internal_func_list P1, P1));
          P3 = (if func_list \<noteq> []
                then P2\<lparr>project_report :=
                          (project_report P2)\<lparr>all_functions_elements := Some func_list\<rparr>\<rparr>
                else P2)
      in P3\<lparr>function_node_cache := []\<rparr>)"

text \<open>\<open>CppProject(source_code_files)\<close>: a project before its first report, with the
  module's cache as it is when the module is loaded.\<close>

definition empty_report :: report where
  "empty_report =
     \<lparr>report_name = [], sources = [], fuzzing_method = [], fuzzer_filename = [],
      all_functions_elements = None\<rparr>"

definition CppProject :: "cpp_source_code_file list \<Rightarrow> cpp_project" where
  "CppProject files =
     \<lparr>function_node_cache = [], source_code_files = files, all_functions = [],
      internal_func_list = [], project_report = empty_report\<rparr>"

section \<open>Notions used in the statements\<close>




text \<open>The number of functions of each file: what decides whether a reference is valid.\<close>

definition shape :: "cpp_source_code_file list \<Rightarrow> nat list" where
  "shape files = map (\<lambda>sf. length (func_defs sf)) files"

text \<open>The two steps of \<open>extract_callsites\<close>, each behind its own test: the traversal that
  fills \<open>base_callsites\<close>, and the filling of \<open>detailed_callsites\<close>.\<close>

definition record_base :: "func_ref \<Rightarrow> cpp_project \<Rightarrow> cpp_project" where
  "record_base self P =
     (if base_callsites (self_func self P) = [] then
        (case walk_callsites self (preorder (root (self_func self P))) [] [] P of
           (callsites, P') \<Rightarrow>
             P'\<lparr>source_code_files :=
                  update_func self
                    (\<lambda>f. f\<lparr>base_callsites :=
                             map (\<lambda>x. (fst x, snd (snd x))) (sorted_callsites callsites)\<rparr>)
                    (source_code_files P')\<rparr>)
      else P)"

definition record_detailed :: "func_ref \<Rightarrow> cpp_project \<Rightarrow> cpp_project" where
  "record_detailed self P1 =
     (if detailed_callsites (self_func self P1) = [] then
        P1\<lparr>source_code_files :=
             update_func self
               (\<lambda>f. f\<lparr>detailed_callsites := detailed_callsites f @
                        map (\<lambda>(dst, src_line). (src_loc (parent_source_file f) src_line, dst))
                          (base_callsites f)\<rparr>)
               (source_code_files P1)\<rparr>
      else P1)"

section \<open>Example inputs\<close>

text \<open>
  Syntax trees as the parser gives them for small sources, used to run the
  definitions. \<open>token\<close> is an anonymous leaf; \<open>call_statement i callee row b\<close> is the
  statement \<open>callee();\<close> that starts at byte \<open>b\<close> of row \<open>row\<close>;
  \<open>void_function i nm row b body_text stmts e\<close> is \<open>void nm()\<close> followed by a compound
  statement with the given statements, from byte \<open>b\<close> to byte \<open>e\<close>. The first argument
  numbers the nodes.
\<close>

definition token :: "nat \<Rightarrow> string \<Rightarrow> nat \<Rightarrow> nat \<Rightarrow> node" where
  "token i s row e = Node i s [] s False row row e []"

definition call_statement :: "nat \<Rightarrow> string \<Rightarrow> nat \<Rightarrow> nat \<Rightarrow> node" where
  "call_statement i callee row b =
     (let e = b + length callee in
      Node i ''expression_statement'' [] (callee @ ''();'') True row row (e + 3)
        [Node (i + 1) ''call_expression'' [] (callee @ ''()'') True row row (e + 2)
           [Node (i + 2) ''identifier'' ''function'' callee True row row e [],
            Node (i + 3) ''argument_list'' ''arguments'' ''()'' True row row (e + 2)
              [token (i + 4) ''('' row (e + 1), token (i + 5) '')'' row (e + 2)]],
         token (i + 6) '';'' row (e + 3)])"

definition void_function ::
  "nat \<Rightarrow> string \<Rightarrow> nat \<Rightarrow> nat \<Rightarrow> string \<Rightarrow> node list \<Rightarrow> nat \<Rightarrow> node" where
  "void_function i nm row b body_text stmts e =
     (let n = b + 5 + length nm in
      Node i ''function_definition'' [] (''void '' @ nm @ ''()'' @ body_text) True row row e
        [Node (i + 1) ''primitive_type'' ''type'' ''void'' True row row (b + 4) [],
         Node (i + 2) ''function_declarator'' ''declarator'' (nm @ ''()'') True row row (n + 2)
           [Node (i + 3) ''identifier'' ''declarator'' nm True row row n [],
            Node (i + 4) ''parameter_list'' ''parameters'' ''()'' True row row (n + 2)
              [token (i + 5) ''('' row (n + 1), token (i + 6) '')'' row (n + 2)]],
         Node (i + 7) ''compound_statement'' ''body'' body_text True row row e
           ([token (i + 8) ''{'' row (n + 3)] @ stmts @ [token (i + 9) ''}'' row e])])"

text \<open>\<open>void f(){}\<close>\<close>

definition empty_function :: node where
  "empty_function = void_function 1 ''f'' 0 0 ''{}'' [] 10"

text \<open>\<open>void g(){ if (x) h(); }\<close>\<close>

definition branching_function :: node where
  "branching_function =
     void_function 1 ''g'' 0 0 ''{ if (x) h(); }''
       [Node 11 ''if_statement'' [] ''if (x) h();'' True 0 0 21
          [token 12 ''if'' 0 12,
           Node 13 ''condition_clause'' ''condition'' ''(x)'' True 0 0 16
             [token 14 ''('' 0 14, Node 15 ''identifier'' ''value'' ''x'' True 0 0 15 [],
              token 16 '')'' 0 16],
           (case call_statement 17 ''h'' 0 17 of
              Node i t f x nm sr er eb cs \<Rightarrow> Node i t ''consequence'' x nm sr er eb cs)]]
       23"














text \<open>
  A project loaded from one file, with \<open>all_functions\<close> as \<open>generate_report\<close> fills it
  before it extracts anything. Then the sources
  \<open>void a(){ b(); }\<close> / \<open>void b(){ a(); }\<close> (two rows),
  \<open>void a(){ b(); b(); }\<close> / \<open>void b(){}\<close>, and \<open>void f(){ x.(); S x; }\<close>, where
  the parser puts a field identifier with empty text after the dot.
\<close>

definition with_all_functions :: "cpp_project \<Rightarrow> cpp_project" where
  "with_all_functions P = P\<lparr>all_functions := collect_functions (source_code_files P)\<rparr>"

definition load_project :: "string \<Rightarrow> node \<Rightarrow> cpp_project" where
  "load_project path tree_root =
     (case language_specific_process path tree_root of
        Inr sf \<Rightarrow> with_all_functions (CppProject [sf])
      | Inl e \<Rightarrow> CppProject [])"

definition mutual_unit :: node where
  "mutual_unit =
     Node 0 ''translation_unit'' [] ''void a(){ b(); }\<newline>void b(){ a(); }\<newline>'' True 0 2 34
       [void_function 1 ''a'' 0 0 ''{ b(); }'' [call_statement 11 ''b'' 0 10] 16,
        void_function 21 ''b'' 1 17 ''{ a(); }'' [call_statement 31 ''a'' 1 27] 33]"

definition twice_unit :: node where
  "twice_unit =
     Node 0 ''translation_unit'' [] ''void a(){ b(); b(); }\<newline>void b(){}\<newline>'' True 0 2 33
       [void_function 1 ''a'' 0 0 ''{ b(); b(); }''
          [call_statement 11 ''b'' 0 10, call_statement 18 ''b'' 0 15] 21,
        void_function 31 ''b'' 1 22 ''{}'' [] 32]"

definition missing_field_call :: node where
  "missing_field_call =
     Node 11 ''expression_statement'' [] ''x.();'' True 0 0 15
       [Node 12 ''call_expression'' [] ''x.()'' True 0 0 14
          [Node 13 ''field_expression'' ''function'' ''x.'' True 0 0 12
             [Node 14 ''identifier'' ''argument'' ''x'' True 0 0 11 [],
              token 15 ''.'' 0 12,
              Node 16 ''field_identifier'' ''field'' [] True 0 0 12 []],
           Node 17 ''argument_list'' ''arguments'' ''()'' True 0 0 14
             [token 18 ''('' 0 13, token 19 '')'' 0 14]],
        token 20 '';'' 0 15]"

definition late_declaration :: node where
  "late_declaration =
     Node 21 ''declaration'' [] ''S x;'' True 0 0 20
       [Node 22 ''type_identifier'' ''type'' ''S'' True 0 0 17 [],
        Node 23 ''identifier'' ''declarator'' ''x'' True 0 0 19 [],
        token 24 '';'' 0 20]"

definition late_unit :: node where
  "late_unit =
     Node 0 ''translation_unit'' [] ''void f(){ x.(); S x; }\<newline>'' True 0 1 23
       [void_function 1 ''f'' 0 0 ''{ x.(); S x; }'' [missing_field_call, late_declaration] 22]"

text \<open>The two-function project after the call sites of both functions were extracted,
  and its report.\<close>

definition mutual_extracted :: cpp_project where
  "mutual_extracted =
     extract_callsites (0, 1) (extract_callsites (0, 0) (load_project ''a.c'' mutual_unit))"

definition mutual_report :: cpp_project where
  "mutual_report = generate_report [] [] [] (load_project ''a.c'' mutual_unit)"

section \<open>Complexity\<close>

lemma traverse_node_complexity_count:
  "traverse_node_complexity n
   = int (length (filter (\<lambda>m. ntype m \<in> set branch_nodes) (preorder n)))"
proof (induction n)
  case (Node i t f x nm sr er eb cs)
  have "sum_list (map traverse_node_complexity cs)
        = int (length (filter (\<lambda>m. ntype m \<in> set branch_nodes) (concat (map preorder cs))))"
    using Node.IH
  proof (induction cs)
    case Nil
    then show ?case by simp
  next
    case (Cons c cs)
    then show ?case by simp
  qed
  then show ?case by simp
qed

lemma process_assert_stmts_complexity:
  "process_assert_stmts fd = Inr F \<Longrightarrow> complexity F = complexity fd"
  by (auto simp: process_assert_stmts_def split: sum.splits)

lemma extract_information_complexity:
  assumes "extract_information anc fd = Inr F" "ntype (root fd) \<noteq> ''preproc_function_def''"
  shows "complexity F = complexity fd + traverse_node_complexity (root fd)"
  using assms
  unfolding extract_information_def Let_def
  by (auto split: option.splits sum.splits prod.splits
      dest!: process_assert_stmts_complexity
      simp: process_bbcount_def process_icount_def process_complexity_def)

text \<open>
  Claim C1, as amended. For every function object \<open>F\<close> built from a node that is not a
  macro function definition, the complexity score is the number of nodes of a branch
  kind in the subtree of the node, each occurrence counted wherever it is nested. The
  count starts from the 0 that the constructor sets, not from 1.
\<close>

theorem complexity_counts_branch_nodes:
  assumes "FunctionDefinition r ancestors source namespace = Inr F"
    and "ntype r \<noteq> ''preproc_function_def''"
  shows "complexity F = int (length (filter (\<lambda>m. ntype m \<in> set branch_nodes) (preorder r)))"
  using extract_information_complexity[OF assms(1)[unfolded FunctionDefinition_def]] assms(2)
  by (simp add: init_function_definition_def traverse_node_complexity_count)

text \<open>The theorem at \<open>void g(){ if (x) h(); }\<close>: one branch node, complexity 1.\<close>

theorem complexity_counts_branch_nodes_witness:
  "FunctionDefinition branching_function [] ''a.c'' []
     = Inr (projr (FunctionDefinition branching_function [] ''a.c'' []))
   \<and> ntype branching_function \<noteq> ''preproc_function_def''
   \<and> complexity (projr (FunctionDefinition branching_function [] ''a.c'' []))
       = int (length (filter (\<lambda>m. ntype m \<in> set branch_nodes) (preorder branching_function)))
   \<and> complexity (projr (FunctionDefinition branching_function [] ''a.c'' [])) = 1"
proof -
  have h1: "FunctionDefinition branching_function [] ''a.c'' []
     = Inr (projr (FunctionDefinition branching_function [] ''a.c'' []))"
    by code_simp
  have h2: "ntype branching_function \<noteq> ''preproc_function_def''"
    by code_simp
  have h3: "complexity (projr (FunctionDefinition branching_function [] ''a.c'' [])) = 1"
    by code_simp
  from complexity_counts_branch_nodes[OF h1 h2] h1 h2 h3 show ?thesis
    by simp
qed

text \<open>
  Claim C1 as stated fails: \<open>void f(){}\<close> is not a macro function, has no branch
  construct, and its complexity is 0, neither 1 plus the count nor at least 1.
\<close>

theorem complexity_counterexample:
  "map_sum id complexity (FunctionDefinition empty_function [] ''a.c'' []) = Inr 0
   \<and> ntype empty_function \<noteq> ''preproc_function_def''"
  by code_simp

section \<open>The tree walk and namespaces\<close>






















section \<open>Conditional blocks\<close>



section \<open>Call-site extraction\<close>

lemma valid_ref_shape: "shape files' = shape files \<Longrightarrow> valid_ref files' r = valid_ref files r"
proof -
  assume s: "shape files' = shape files"
  then have l: "length files' = length files"
    by (metis length_map shape_def)
  have "fst r < length files \<Longrightarrow> length (func_defs (files' ! fst r)) = length (func_defs (files ! fst r))"
  proof -
    assume a: "fst r < length files"
    then have "shape files' ! fst r = length (func_defs (files' ! fst r))"
      "shape files ! fst r = length (func_defs (files ! fst r))"
      using l by (simp_all add: shape_def)
    with s show ?thesis by simp
  qed
  with l show ?thesis
    by (auto simp: valid_ref_def)
qed

lemma shape_update_func: "shape (update_func r g files) = shape files"
  unfolding shape_def update_func_def
  by (rule map_list_update_same) simp

lemma func_at_update_func:
  "valid_ref files r \<Longrightarrow> func_at (update_func r g files) r = g (func_at files r)"
  by (simp add: valid_ref_def func_at_def update_func_def)

lemma get_function_node_files:
  "get_function_node t fl olo ns P = (res, P') \<Longrightarrow>
   source_code_files P' = source_code_files P \<and> all_functions P' = all_functions P"
  by (auto simp: get_function_node_eq cache_store_def split: option.splits)

lemma process_field_expr_files:
  "process_field_expr_return_type self e P = (r, P') \<Longrightarrow>
   source_code_files P' = source_code_files P \<and> all_functions P' = all_functions P"
proof (induction self e P arbitrary: r P' rule: process_field_expr_return_type.induct)
  case (1 self field_expr P)
  show ?case
  proof (cases "child_by_field_name field_expr ''argument''")
    case None
    with 1(2) show ?thesis
      by (simp add: process_field_expr_return_type.simps[of self field_expr P])
  next
    case (Some arg)
    note a = Some
    show ?thesis
    proof (cases "child_by_field_name field_expr ''field''")
      case None
      with a 1(2) show ?thesis
        by (simp add: process_field_expr_return_type.simps[of self field_expr P])
    next
      case (Some field)
      obtain ot P1 where o:
        "(if ntype arg = ''field_expression'' then
            (case process_field_expr_return_type self arg P of
               ((ret, inner_name), P1) \<Rightarrow> (Object (Some inner_name), P1))
          else if ntype arg = ''this'' then
            (Object (Some (namespace_or_class (self_func self P))), P)
          else if ntype arg \<in> set [''identifier'', ''qualified_identifier''] then
            (Object (if ntext arg \<noteq> []
                     then map_of (var_map (self_func self P)) (ntext arg)
                     else None), P)
          else if ntype arg = ''call_expression'' then (Bail, P)
          else (Object None, P)) = (ot, P1)"
        by (metis surj_pair)
      have f1: "source_code_files P1 = source_code_files P \<and> all_functions P1 = all_functions P"
      proof (cases "ntype arg = ''field_expression''")
        case True
        with o obtain ret inner where
          "process_field_expr_return_type self arg P = ((ret, inner), P1)"
          by (auto split: prod.splits)
        from 1(1)[OF a Some refl True this] show ?thesis .
      next
        case False
        with o show ?thesis by (auto split: if_splits)
      qed
      from 1(2) a Some o f1 show ?thesis
        by (auto simp: process_field_expr_return_type.simps[of self field_expr P] Let_def
            split: object_type.splits option.splits if_splits prod.splits
            dest!: get_function_node_files)
    qed
  qed
qed


lemma direct_call_target_files:
  "direct_call_target self func P = (t, P') \<Longrightarrow>
   source_code_files P' = source_code_files P \<and> all_functions P' = all_functions P"
  unfolding direct_call_target_def
  by (auto split: prod.splits option.splits if_splits dest!: get_function_node_files)

lemma process_invoke_files:
  "process_invoke self expr P = (cs, P') \<Longrightarrow>
   source_code_files P' = source_code_files P \<and> all_functions P' = all_functions P"
  unfolding process_invoke_def Let_def
  by (auto split: prod.splits option.splits if_splits
      dest!: direct_call_target_files process_field_expr_files)

lemma process_declaration_shape:
  "process_declaration self stmt P = (cs, P') \<Longrightarrow>
   shape (source_code_files P') = shape (source_code_files P)"
  unfolding process_declaration_def Let_def set_var_def
  by (auto split: prod.splits option.splits if_splits simp: shape_update_func)

lemma process_callsites_shape:
  "process_callsites self stmt P = (cs, P') \<Longrightarrow>
   shape (source_code_files P') = shape (source_code_files P)"
  unfolding process_callsites_def
  by (auto split: option.splits if_splits
      dest!: process_invoke_files process_declaration_shape)

lemma walk_callsites_shape:
  "walk_callsites self nodes visited acc P = (cs, P') \<Longrightarrow>
   shape (source_code_files P') = shape (source_code_files P)"
proof (induction self nodes visited acc P rule: walk_callsites.induct)
  case (1 self visited callsites P)
  then show ?case by simp
next
  case (2 self n rest visited callsites P)
  show ?case
  proof (cases "nid n \<in> set visited")
    case True
    with 2 show ?thesis by simp
  next
    case False
    obtain found P1 where p: "process_callsites self n P = (found, P1)"
      by (metis surj_pair)
    with 2(2)[OF False p[symmetric]] 2(3) False process_callsites_shape[OF p]
    show ?thesis by simp
  qed
qed

lemma sorted_callsites_props:
  "sorted (map (\<lambda>x. fst (snd x)) (sorted_callsites cs))"
  "distinct (sorted_callsites cs)"
  "set (sorted_callsites cs) = set cs"
  by (simp_all add: sorted_callsites_def)

lemma extract_callsites_steps:
  "extract_callsites self P = record_detailed self (record_base self P)"
  unfolding extract_callsites_def record_detailed_def record_base_def Let_def ..

lemma self_func_update:
  "valid_ref (source_code_files P) self \<Longrightarrow>
   self_func self (P\<lparr>source_code_files := update_func self g (source_code_files P)\<rparr>)
     = g (self_func self P)"
  by (simp add: self_func_def func_at_update_func)

lemma valid_ref_update:
  "valid_ref (update_func r g files) self = valid_ref files self"
  by (rule valid_ref_shape) (rule shape_update_func)

lemma record_base_valid:
  assumes "valid_ref (source_code_files P) self"
  shows "valid_ref (source_code_files (record_base self P)) self"
proof (cases "base_callsites (self_func self P) = []")
  case True
  obtain cs P' where w: "walk_callsites self (preorder (root (self_func self P))) [] [] P = (cs, P')"
    by (metis surj_pair)
  from valid_ref_shape[OF walk_callsites_shape[OF w]] assms
  have "valid_ref (source_code_files P') self"
    by simp
  with True w show ?thesis
    by (simp add: record_base_def valid_ref_update)
next
  case False
  with assms show ?thesis by (simp add: record_base_def)
qed

lemma record_base_fresh:
  assumes "valid_ref (source_code_files P) self"
    and "base_callsites (self_func self P) = []"
  shows "base_callsites (self_func self (record_base self P))
         = map (\<lambda>x. (fst x, snd (snd x)))
             (sorted_callsites (fst (walk_callsites self (preorder (root (self_func self P))) [] [] P)))"
proof -
  obtain cs P' where w: "walk_callsites self (preorder (root (self_func self P))) [] [] P = (cs, P')"
    by (metis surj_pair)
  from valid_ref_shape[OF walk_callsites_shape[OF w]] assms(1)
  have v: "valid_ref (source_code_files P') self"
    by simp
  have "record_base self P = P'\<lparr>source_code_files :=
                  update_func self
                    (\<lambda>f. f\<lparr>base_callsites :=
                             map (\<lambda>x. (fst x, snd (snd x))) (sorted_callsites cs)\<rparr>)
                    (source_code_files P')\<rparr>"
    using assms(2) w by (simp add: record_base_def)
  then show ?thesis
    using w by (simp add: self_func_update[OF v])
qed

lemma record_detailed_base:
  assumes "valid_ref (source_code_files P1) self"
  shows "base_callsites (self_func self (record_detailed self P1)) = base_callsites (self_func self P1)"
proof (cases "detailed_callsites (self_func self P1) = []")
  case True
  then show ?thesis
    by (simp add: record_detailed_def self_func_update[OF assms])
next
  case False
  then show ?thesis by (simp add: record_detailed_def)
qed

lemma record_detailed_nonempty:
  assumes "valid_ref (source_code_files P1) self"
    and "base_callsites (self_func self P1) \<noteq> []"
  shows "detailed_callsites (self_func self (record_detailed self P1)) \<noteq> []"
proof (cases "detailed_callsites (self_func self P1) = []")
  case True
  with assms(2) show ?thesis
    by (simp add: record_detailed_def self_func_update[OF assms(1)])
next
  case False
  then show ?thesis by (simp add: record_detailed_def)
qed

text \<open>
  Claim C3, as amended. For a function object of the project whose call sites have not
  been extracted yet, the recorded call sites after extraction are the (target, line)
  projections of the collected (target, byte offset, line) triples, sorted in
  non-decreasing order of byte offset and without a duplicate triple. Two triples that
  differ only in the byte offset stay, so a (target, line) pair can occur twice.
\<close>

theorem callsites_sorted_without_duplicate_triples:
  assumes "valid_ref (source_code_files P) self"
    and "base_callsites (self_func self P) = []"
  shows "let found = sorted_callsites
                       (fst (walk_callsites self (preorder (root (self_func self P))) [] [] P))
         in base_callsites (self_func self (extract_callsites self P))
              = map (\<lambda>x. (fst x, snd (snd x))) found
            \<and> sorted (map (\<lambda>x. fst (snd x)) found)
            \<and> distinct found
            \<and> set found = set (fst (walk_callsites self (preorder (root (self_func self P))) [] [] P))"
  unfolding Let_def extract_callsites_steps
  using record_detailed_base[OF record_base_valid[OF assms(1)]] record_base_fresh[OF assms]
  by (simp add: sorted_callsites_props)

text \<open>The theorem at \<open>void a(){ b(); }\<close>: one triple, one recorded call site.\<close>

theorem callsites_sorted_without_duplicate_triples_witness:
  "valid_ref (source_code_files (load_project ''a.c'' mutual_unit)) (0, 0)
   \<and> base_callsites (self_func (0, 0) (load_project ''a.c'' mutual_unit)) = []
   \<and> sorted_callsites (fst (walk_callsites (0, 0)
         (preorder (root (self_func (0, 0) (load_project ''a.c'' mutual_unit)))) [] []
         (load_project ''a.c'' mutual_unit))) = [(''b'', 11, 1)]
   \<and> base_callsites (self_func (0, 0) (extract_callsites (0, 0) (load_project ''a.c'' mutual_unit)))
       = [(''b'', 1)]"
proof -
  have h1: "valid_ref (source_code_files (load_project ''a.c'' mutual_unit)) (0, 0)"
    by code_simp
  have h2: "base_callsites (self_func (0, 0) (load_project ''a.c'' mutual_unit)) = []"
    by code_simp
  have e: "sorted_callsites (fst (walk_callsites (0, 0)
         (preorder (root (self_func (0, 0) (load_project ''a.c'' mutual_unit)))) [] []
         (load_project ''a.c'' mutual_unit))) = [(''b'', 11, 1)]"
    by code_simp
  from callsites_sorted_without_duplicate_triples[OF h1 h2]
  have "base_callsites (self_func (0, 0) (extract_callsites (0, 0) (load_project ''a.c'' mutual_unit)))
       = [(''b'', 1)]"
    by (simp add: Let_def e)
  with h1 h2 e show ?thesis
    by (intro conjI)
qed

text \<open>
  Claim C3 as stated fails at \<open>void a(){ b(); b(); }\<close>: the two calls of \<open>b\<close> on line 1
  have different byte offsets, so both triples stay and the pair (\<open>b\<close>, 1) is recorded
  twice.
\<close>

theorem duplicate_target_line_counterexample:
  "base_callsites (self_func (0, 0) (extract_callsites (0, 0) (load_project ''a.c'' twice_unit)))
     = [(''b'', 1), (''b'', 1)]
   \<and> \<not> distinct (base_callsites
          (self_func (0, 0) (extract_callsites (0, 0) (load_project ''a.c'' twice_unit))))"
  by code_simp

text \<open>
  Claim C7, as amended. For a function object of the project whose extraction has
  recorded at least one call site, a second invocation finds both lists non-empty and
  leaves the whole state as it is: the same cached lists, no traversal, no lookup. A
  function with no recorded call site is traversed again by every invocation.
\<close>

theorem second_extraction_is_cached:
  assumes "valid_ref (source_code_files P) self"
    and "base_callsites (self_func self (extract_callsites self P)) \<noteq> []"
  shows "extract_callsites self (extract_callsites self P) = extract_callsites self P"
proof -
  have v: "valid_ref (source_code_files (record_base self P)) self"
    by (rule record_base_valid[OF assms(1)])
  from assms(2) have b1: "base_callsites (self_func self (record_base self P)) \<noteq> []"
    by (simp add: extract_callsites_steps record_detailed_base[OF v])
  from record_detailed_nonempty[OF v b1]
  have d: "detailed_callsites (self_func self (extract_callsites self P)) \<noteq> []"
    by (simp add: extract_callsites_steps)
  from assms(2) have "record_base self (extract_callsites self P) = extract_callsites self P"
    by (simp add: record_base_def)
  moreover from d have "record_detailed self (extract_callsites self P) = extract_callsites self P"
    by (simp add: record_detailed_def)
  ultimately show ?thesis
    by (simp add: extract_callsites_steps[of self "extract_callsites self P"])
qed

text \<open>The theorem at \<open>void a(){ b(); }\<close>, where the first extraction records a call site.\<close>

theorem second_extraction_is_cached_witness:
  "valid_ref (source_code_files (load_project ''a.c'' mutual_unit)) (0, 0)
   \<and> base_callsites (self_func (0, 0) (extract_callsites (0, 0) (load_project ''a.c'' mutual_unit)))
       \<noteq> []
   \<and> extract_callsites (0, 0) (extract_callsites (0, 0) (load_project ''a.c'' mutual_unit))
       = extract_callsites (0, 0) (load_project ''a.c'' mutual_unit)"
proof -
  have h1: "valid_ref (source_code_files (load_project ''a.c'' mutual_unit)) (0, 0)"
    by code_simp
  have h2: "base_callsites (self_func (0, 0)
              (extract_callsites (0, 0) (load_project ''a.c'' mutual_unit))) \<noteq> []"
    by code_simp
  from second_extraction_is_cached[OF h1 h2] h1 h2 show ?thesis
    by (intro conjI)
qed

text \<open>
  Claim C7 as stated fails at \<open>void f(){ x.(); S x; }\<close>: the first extraction finds the
  type of \<open>x\<close> only after the call and records nothing, so the second one traverses
  again, now knows the type of \<open>x\<close>, and records a call site.
\<close>

theorem second_extraction_counterexample:
  "base_callsites (self_func (0, 0) (extract_callsites (0, 0) (load_project ''a.c'' late_unit))) = []
   \<and> base_callsites (self_func (0, 0)
        (extract_callsites (0, 0) (extract_callsites (0, 0) (load_project ''a.c'' late_unit))))
       = [(''S::'', 1)]"
  by code_simp

section \<open>Function depth\<close>

text \<open>A callee that is already on the path counts 1; the state stays as it is.\<close>

lemma callee_on_path:
  assumes "find_source_with_func_def files (fst callsite) = Some target"
    and "name (func_at files (snd target)) \<in> set visited"
  shows "depth_of_callsites func (callsite # rest) cur (files, visited)
         = depth_of_callsites func rest (max cur 1) (files, visited)"
  using assms by (simp add: depth_of_callsites.simps)

lemma mutual_extracted_functions:
  "map (\<lambda>f. (name f, base_callsites f, depth f))
       (func_defs (hd (source_code_files mutual_extracted)))
     = [(''a'', [(''b'', 1)], - 1), (''b'', [(''a'', 2)], - 1)]"
  unfolding mutual_extracted_def by code_simp

lemma mutual_extracted_depths:
  "fst (calculate_function_depth (0, 0) mutual_extracted) = 2"
  "fst (calculate_function_depth (0, 1)
          (snd (calculate_function_depth (0, 0) mutual_extracted))) = 3"
  "fst (calculate_function_depth (0, 1) mutual_extracted) = 2"
  unfolding mutual_extracted_def by code_simp+

lemma mutual_back_edge:
  "depth_of_callsites (0, 1) [(''a'', 2)] 0
     (source_code_files mutual_extracted, [''a'', ''b''])
   = (1, source_code_files mutual_extracted, [''a'', ''b''])"
  unfolding mutual_extracted_def by code_simp

lemma mutual_report_depths:
  "map_option (map (\<lambda>d. (functionName d, functionDepth d)))
     (all_functions_elements (project_report mutual_report))
   = Some [(''a'', 1), (''b'', 2)]"
  unfolding mutual_report_def by code_simp

text \<open>
  Claim C2, as amended. For the two-function project \<open>void a(){ b(); }\<close>
  \<open>void b(){ a(); }\<close> the depth computation returns (\<open>recursive_function_depth\<close> is a
  total function). With the call sites of both functions extracted and no depth stored,
  the function asked first gets depth 2, whichever it is: its callee is descended into,
  and there the call back to a function already on the path counts exactly 1 without
  further descent and without a change of the state. In the report, where the call sites
  of \<open>b\<close> are not yet extracted when the depth of \<open>a\<close> is computed, \<open>a\<close> gets depth 1 and
  \<open>b\<close>, from the stored depth of \<open>a\<close>, depth 2.
\<close>

theorem mutual_recursion_depth:
  "map (\<lambda>f. (name f, base_callsites f, depth f))
       (func_defs (hd (source_code_files mutual_extracted)))
     = [(''a'', [(''b'', 1)], - 1), (''b'', [(''a'', 2)], - 1)]
   \<and> fst (calculate_function_depth (0, 0) mutual_extracted) = 2
   \<and> fst (calculate_function_depth (0, 1) mutual_extracted) = 2
   \<and> depth_of_callsites (0, 1) [(''a'', 2)] 0
         (source_code_files mutual_extracted, [''a'', ''b''])
       = (1, source_code_files mutual_extracted, [''a'', ''b''])
   \<and> map_option (map (\<lambda>d. (functionName d, functionDepth d)))
         (all_functions_elements (project_report mutual_report))
       = Some [(''a'', 1), (''b'', 2)]"
  by (intro conjI mutual_extracted_functions mutual_extracted_depths mutual_back_edge
        mutual_report_depths)

text \<open>
  Claim C2 as stated fails at its own project: the report gives \<open>b\<close> depth 2, and with
  both call-site lists extracted \<open>a\<close> gets depth 2 and \<open>b\<close>, asked next, depth 3.
\<close>

theorem mutual_recursion_depth_counterexample:
  "map_option (map functionDepth) (all_functions_elements (project_report mutual_report))
     \<noteq> Some [1, 1]
   \<and> fst (calculate_function_depth (0, 0) mutual_extracted) \<noteq> 1
   \<and> fst (calculate_function_depth (0, 1)
          (snd (calculate_function_depth (0, 0) mutual_extracted))) \<noteq> 1"
proof -
  from mutual_report_depths
  have r: "map_option (map functionDepth) (all_functions_elements (project_report mutual_report))
          = Some [1, 2]"
    by (cases "all_functions_elements (project_report mutual_report)") auto
  have "map_option (map functionDepth) (all_functions_elements (project_report mutual_report))
          \<noteq> Some [1, 1]"
    unfolding r by simp
  moreover have "fst (calculate_function_depth (0, 0) mutual_extracted) \<noteq> 1"
    unfolding mutual_extracted_depths(1) by simp
  moreover have "fst (calculate_function_depth (0, 1)
          (snd (calculate_function_depth (0, 0) mutual_extracted))) \<noteq> 1"
    unfolding mutual_extracted_depths(2) by simp
  ultimately show ?thesis
    by (intro conjI)
qed

end
